theory Spec2Isabelle
  imports Main "HOL-Library.Word"
begin

section \<open>Errors and outcomes\<close>

text \<open>
  Go error values. \<open>io.EOF\<close> and \<open>io.ErrShortWrite\<close> are sentinel values compared by
  identity, so each has a constructor of its own: an error made elsewhere with the same
  message (\<open>errors_New ''EOF''\<close>) is a different value, as in Go. \<open>AddrError why addr\<close> is
  \<open>&net.AddrError{Err: why, Addr: addr}\<close>, and \<open>fmt_Errorf p e\<close> is
  \<open>fmt.Errorf(p + "%w", e)\<close>.
\<close>

datatype error =
    EOF
  | ErrShortWrite
  | errors_New string
  | AddrError string string
  | fmt_Errorf string error

text \<open>
  The \<open>Error()\<close> method. For \<open>net.AddrError\<close> the standard library prefixes the message
  with the address whenever the address is not empty.
\<close>

fun Error :: "error \<Rightarrow> string" where
  "Error EOF = ''EOF''"
| "Error ErrShortWrite = ''short write''"
| "Error (errors_New s) = s"
| "Error (AddrError why addr) =
     (if addr \<noteq> [] then ''address '' @ addr @ '': '' @ why else why)"
| "Error (fmt_Errorf p e) = p @ Error e"

text \<open>A call either returns or panics (with the runtime's message).\<close>

datatype 'a outcome = Return 'a | Panic string

section \<open>Client: connection configuration (client/main.go)\<close>

subsection \<open>Standard library: \<open>strings.HasPrefix\<close>, \<open>net.SplitHostPort\<close>\<close>

definition HasPrefix :: "string \<Rightarrow> string \<Rightarrow> bool" where
  "HasPrefix s prefix = (length s \<ge> length prefix \<and> take (length prefix) s = prefix)"

text \<open>Index of the first (last) occurrence of a byte, or -1.\<close>

fun IndexByteString :: "string \<Rightarrow> char \<Rightarrow> int" where
  "IndexByteString [] c = -1"
| "IndexByteString (x # xs) c =
     (if x = c then 0
      else (let r = IndexByteString xs c in if r < 0 then -1 else r + 1))"

definition LastIndexByteString :: "string \<Rightarrow> char \<Rightarrow> int" where
  "LastIndexByteString s c =
     (let r = IndexByteString (rev s) c in if r < 0 then -1 else int (length s) - 1 - r)"

definition missingPort :: string where
  "missingPort = ''missing port in address''"

definition tooManyColons :: string where
  "tooManyColons = ''too many colons in address''"

text \<open>
  The tail of \<open>net.SplitHostPort\<close>: with the host found, \<open>j\<close> and \<open>k\<close> the positions from
  which no bracket may follow and \<open>i\<close> the position of the last colon.
\<close>

definition SplitHostPort_rest ::
  "string \<Rightarrow> string \<Rightarrow> nat \<Rightarrow> nat \<Rightarrow> int \<Rightarrow> error + string \<times> string" where
  "SplitHostPort_rest hostport host j k i =
     (if IndexByteString (drop j hostport) (CHR ''['') \<ge> 0
        then Inl (AddrError ''unexpected '[' in address'' hostport)
      else if IndexByteString (drop k hostport) (CHR '']'') \<ge> 0
        then Inl (AddrError ''unexpected ']' in address'' hostport)
      else Inr (host, drop (nat (i + 1)) hostport))"

text \<open>
  \<open>net.SplitHostPort\<close> of the Go standard library (not part of the repository), after its
  source: the port starts after the last colon; a host in brackets ends at the first
  \<open>]\<close>, which must stand just before that colon; a host without brackets holds no colon.
\<close>

definition SplitHostPort :: "string \<Rightarrow> error + string \<times> string" where
  "SplitHostPort hostport =
     (let i = LastIndexByteString hostport (CHR '':'') in
      if i < 0 then Inl (AddrError missingPort hostport)
      else if hd hostport = CHR ''['' then
        (let close = IndexByteString hostport (CHR '']'') in
         if close < 0 then Inl (AddrError ''missing ']' in address'' hostport)
         else if close + 1 = int (length hostport) then Inl (AddrError missingPort hostport)
         else if close + 1 = i then
           SplitHostPort_rest hostport (take (nat close - 1) (drop 1 hostport))
             1 (nat (close + 1)) i
         else if hostport ! nat (close + 1) = CHR '':''
           then Inl (AddrError tooManyColons hostport)
         else Inl (AddrError missingPort hostport))
      else
        (let host = take (nat i) hostport in
         if IndexByteString host (CHR '':'') \<ge> 0 then Inl (AddrError tooManyColons hostport)
         else SplitHostPort_rest hostport host 0 0 i))"

subsection \<open>Configuration records\<close>

text \<open>
  \<open>net.Dialer\<close>, of which the program sets the timeout (in nanoseconds). The configuration
  holds a pointer to one (\<open>None\<close> is nil); nothing in the program writes through that
  pointer, so the model keeps the value it points to.
\<close>

datatype net_Dialer = net_Dialer (Timeout: int)

definition defaultDialer :: net_Dialer where
  "defaultDialer = net_Dialer (5 * 1000000000)"

record ConnectAddrConfig =
  Addr :: string

record ConnectDialConfig =
  Dialer :: "net_Dialer option"
  Host :: string
  Path :: string
  ServerName :: string
  TLS :: bool
  Insecure :: bool

text \<open>
  \<open>splitedConnectDialConfig\<close> embeds a pointer to the dial configuration:
  \<open>pConnectDialConfig\<close> is the configuration it points to.
\<close>

record splitedConnectDialConfig =
  pConnectDialConfig :: ConnectDialConfig
  splitAddr :: string
  splitPort :: string

record ConnectConfig =
  ConnectAddrConfig :: ConnectAddrConfig
  ConnectDialConfig :: ConnectDialConfig

subsection \<open>Address, port and path\<close>

definition defaultPort :: "bool \<Rightarrow> string" where
  "defaultPort tlsEnabled = (if tlsEnabled then ''443'' else ''80'')"

definition parseAddrAndPort :: "string \<Rightarrow> bool \<Rightarrow> error + string \<times> string" where
  "parseAddrAndPort addr tlsEnabled =
     (case SplitHostPort addr of
        Inl err \<Rightarrow>
          if Error err = ''missing port in address''
            then Inr (addr, defaultPort tlsEnabled)
          else Inl (fmt_Errorf ''failed to split host and port: '' err)
      | Inr (domain, port) \<Rightarrow> Inr (domain, port))"

definition ensureLeadingSlash :: "string \<Rightarrow> string" where
  "ensureLeadingSlash path = (if \<not> HasPrefix path ''/'' then ''/'' @ path else path)"

text \<open>
  \<open>generateDialConfig\<close> works on its own copy \<open>cfg\<close> of the dial configuration (a value
  parameter). The result points to that copy, so the assignments made to \<open>cfg\<close> after
  \<open>splitCfg\<close> is built are seen through the result: the model builds the result from the
  final \<open>cfg\<close>. The parameter \<open>addr\<close> is overwritten by the host part that
  \<open>parseAddrAndPort\<close> returns, and that value is what \<open>Host\<close> defaults to.
\<close>

definition generateDialConfig ::
  "string \<Rightarrow> ConnectDialConfig \<Rightarrow> error + splitedConnectDialConfig" where
  "generateDialConfig addr0 cfg0 =
     (let cfg1 = (if Dialer cfg0 = None then cfg0\<lparr>Dialer := Some defaultDialer\<rparr> else cfg0) in
      case parseAddrAndPort addr0 (TLS cfg1) of
        Inl err \<Rightarrow> Inl err
      | Inr (addr, port) \<Rightarrow>
          (let cfg2 = (if Host cfg1 = []
                       then (if ServerName cfg1 \<noteq> []
                             then cfg1\<lparr>Host := ServerName cfg1\<rparr>
                             else cfg1\<lparr>Host := addr\<rparr>)
                       else cfg1);
               cfg3 = (if ServerName cfg2 = [] then cfg2\<lparr>ServerName := Host cfg2\<rparr> else cfg2);
               cfg4 = cfg3\<lparr>Path := ensureLeadingSlash (Path cfg3)\<rparr>
           in Inr \<lparr>pConnectDialConfig = cfg4, splitAddr = addr, splitPort = port\<rparr>))"

subsection \<open>Dialling\<close>

text \<open>
  What the network and the libraries answer. The program calls them and passes their
  results on; the model takes them as parameters. \<open>UserContext\<close> is a context the caller
  supplies, \<open>TCPConn\<close> a connection the dialer returned, and \<open>tls_Client c config\<close> the
  connection \<open>tls.Client(c, config)\<close> wraps around \<open>c\<close>.
\<close>

datatype Context = Background | WithTimeout Context int | UserContext nat

record tls_Config =
  InsecureSkipVerify :: bool
  tls_ServerName :: string

datatype net_Conn = TCPConn nat | tls_Client net_Conn tls_Config

record url_URL =
  URL_Scheme :: string
  URL_Host :: string
  URL_Path :: string

record websocket_Config =
  Location :: "url_URL option"
  Origin :: "url_URL option"
  Header :: "string \<rightharpoonup> string list"
  Version :: int
  ws_Dialer :: "net_Dialer option"

record websocket_Conn =
  ws_config :: websocket_Config
  rwc :: net_Conn
  PayloadType :: nat

definition ProtocolVersionHybi13 :: int where
  "ProtocolVersionHybi13 = 13"

definition BinaryFrame :: nat where
  "BinaryFrame = 2"

definition PingFrame :: nat where
  "PingFrame = 9"

record network =
  websocket_NewConfig :: "string \<Rightarrow> string \<Rightarrow> error + websocket_Config"
  dialer_DialContext :: "net_Dialer \<Rightarrow> Context \<Rightarrow> string \<Rightarrow> string \<Rightarrow> error + net_Conn"
  HandshakeContext :: "net_Conn \<Rightarrow> Context \<Rightarrow> error option"
  websocket_NewClient :: "websocket_Config \<Rightarrow> net_Conn \<Rightarrow> error + websocket_Conn"

definition setReqHeader :: "websocket_Config \<Rightarrow> websocket_Config" where
  "setReqHeader wsConfig =
     wsConfig\<lparr>Header := (Header wsConfig)(''User-Agent'' \<mapsto>
       [''Mozilla/5.0 (Windows NT 10.0; WOW64) AppleWebKit/537.36 (KHTML, like Gecko) Chrome/86.0.4240.198 Safari/537.36''])\<rparr>"

definition createWebsocketConfig ::
  "network \<Rightarrow> ConnectDialConfig \<Rightarrow> error + websocket_Config" where
  "createWebsocketConfig net cfg =
     (let (server, origin) =
            (if TLS cfg
             then (''wss://'' @ Host cfg @ Path cfg, ''https://'' @ Host cfg @ Path cfg)
             else (''ws://'' @ Host cfg @ Path cfg, ''http://'' @ Host cfg @ Path cfg)) in
      case websocket_NewConfig net server origin of
        Inl err \<Rightarrow> Inl (fmt_Errorf ''failed to create websocket config: '' err)
      | Inr wsConfig \<Rightarrow> Inr ((setReqHeader wsConfig)\<lparr>ws_Dialer := Dialer cfg\<rparr>))"

text \<open>
  \<open>dialWithTimeout\<close> calls a method of the dialer it is handed a pointer to: on a nil
  pointer that is a nil dereference.
\<close>

definition dialWithTimeout ::
  "network \<Rightarrow> Context \<Rightarrow> net_Dialer option \<Rightarrow> string \<Rightarrow> string \<Rightarrow> (error + net_Conn) outcome" where
  "dialWithTimeout net ctx dialer addr port =
     (let timeoutCtx = WithTimeout ctx (5 * 1000000000) in
      case dialer of
        None \<Rightarrow> Panic ''invalid memory address or nil pointer dereference''
      | Some d \<Rightarrow> Return (dialer_DialContext net d timeoutCtx ''tcp'' (addr @ '':'' @ port)))"

text \<open>The TLS client configuration that \<open>connect\<close> builds when TLS is enabled.\<close>

definition connect_tlsConfig :: "ConnectDialConfig \<Rightarrow> tls_Config" where
  "connect_tlsConfig cfg =
     \<lparr>InsecureSkipVerify = Insecure cfg, tls_ServerName = ServerName cfg\<rparr>"

text \<open>
  \<open>connect\<close> returns the websocket connection or the error, and with it the connections it
  has closed on the way (the second component).
\<close>

definition connect ::
  "network \<Rightarrow> Context \<Rightarrow> splitedConnectDialConfig
     \<Rightarrow> ((error + websocket_Conn) \<times> net_Conn list) outcome" where
  "connect net ctx cfg =
     (case createWebsocketConfig net (pConnectDialConfig cfg) of
        Inl err \<Rightarrow> Return (Inl err, [])
      | Inr wsConfig \<Rightarrow>
         (case dialWithTimeout net ctx (Dialer (pConnectDialConfig cfg))
                 (splitAddr cfg) (splitPort cfg) of
            Panic msg \<Rightarrow> Panic msg
          | Return (Inl err) \<Rightarrow> Return (Inl err, [])
          | Return (Inr dialConn) \<Rightarrow>
             (if TLS (pConnectDialConfig cfg) then
                (let tlsConn = tls_Client dialConn (connect_tlsConfig (pConnectDialConfig cfg)) in
                 case HandshakeContext net tlsConn ctx of
                   Some err \<Rightarrow> Return (Inl err, [dialConn])
                 | None \<Rightarrow>
                    (case websocket_NewClient net wsConfig tlsConn of
                       Inl err \<Rightarrow> Return (Inl err, [tlsConn])
                     | Inr ws \<Rightarrow> Return (Inr ws, [])))
              else
                (case websocket_NewClient net wsConfig dialConn of
                   Inl err \<Rightarrow> Return (Inl err, [dialConn])
                 | Inr ws \<Rightarrow> Return (Inr ws, [])))))"

definition ConnectWithConfig ::
  "network \<Rightarrow> Context \<Rightarrow> ConnectConfig \<Rightarrow> ((error + websocket_Conn) \<times> net_Conn list) outcome" where
  "ConnectWithConfig net ctx cfg =
     (case generateDialConfig (Addr (ConnectAddrConfig cfg)) (ConnectDialConfig cfg) of
        Inl err \<Rightarrow> Return (Inl err, [])
      | Inr dialCfg \<Rightarrow>
         (case connect net ctx dialCfg of
            Panic msg \<Rightarrow> Panic msg
          | Return (Inl err, closed) \<Rightarrow> Return (Inl err, closed)
          | Return (Inr ws, closed) \<Rightarrow> Return (Inr (ws\<lparr>PayloadType := BinaryFrame\<rparr>), closed)))"

subsection \<open>Options, and the objects they are applied to\<close>

text \<open>
  An option is a function that is handed a pointer to a \<open>ConnectConfig\<close> and assigns to
  fields of the configuration behind it; it is modelled by the update it performs on that
  configuration. The configurations themselves live in a store: a pointer is an index into
  the list of the \<open>ConnectConfig\<close> objects allocated so far, and a new object is put at
  its end. A \<open>*Dialer\<close> is the pointer to the configuration its struct holds.
\<close>

type_synonym ConnectOption = "ConnectConfig \<Rightarrow> ConnectConfig"

type_synonym ref = nat

type_synonym store = "ConnectConfig list"

definition set_Addr :: "string \<Rightarrow> ConnectConfig \<Rightarrow> ConnectConfig" where
  "set_Addr a c = c\<lparr>ConnectAddrConfig := (ConnectAddrConfig c)\<lparr>Addr := a\<rparr>\<rparr>"

definition WithURL :: "url_URL \<Rightarrow> ConnectOption" where
  "WithURL u = (\<lambda>c.
     let c1 = set_Addr (URL_Host u) c;
         c2 = c1\<lparr>ConnectDialConfig := (ConnectDialConfig c1)\<lparr>Path := URL_Path u\<rparr>\<rparr>
     in if URL_Scheme u = ''wss''
        then c2\<lparr>ConnectDialConfig := (ConnectDialConfig c2)\<lparr>TLS := True, ServerName := URL_Host u\<rparr>\<rparr>
        else c2\<lparr>ConnectDialConfig := (ConnectDialConfig c2)\<lparr>TLS := False\<rparr>\<rparr>)"

definition WithAddr :: "string \<Rightarrow> ConnectOption" where
  "WithAddr addr = (\<lambda>c. set_Addr addr c)"

definition WithHost :: "string \<Rightarrow> ConnectOption" where
  "WithHost host = (\<lambda>c. c\<lparr>ConnectDialConfig := (ConnectDialConfig c)\<lparr>Host := host\<rparr>\<rparr>)"

definition WithPath :: "string \<Rightarrow> ConnectOption" where
  "WithPath path = (\<lambda>c. c\<lparr>ConnectDialConfig := (ConnectDialConfig c)\<lparr>Path := path\<rparr>\<rparr>)"

definition WithDialTLS :: "string \<Rightarrow> bool \<Rightarrow> ConnectOption" where
  "WithDialTLS serverName insecure = (\<lambda>c.
     c\<lparr>ConnectDialConfig :=
         (ConnectDialConfig c)\<lparr>TLS := True, ServerName := serverName, Insecure := insecure\<rparr>\<rparr>)"

definition WithDialer :: "net_Dialer option \<Rightarrow> ConnectOption" where
  "WithDialer dialer = (\<lambda>c. c\<lparr>ConnectDialConfig := (ConnectDialConfig c)\<lparr>Dialer := dialer\<rparr>\<rparr>)"

text \<open>The zero value \<open>ConnectConfig{}\<close>.\<close>

definition zero_ConnectConfig :: ConnectConfig where
  "zero_ConnectConfig =
     \<lparr>ConnectAddrConfig = \<lparr>Addr = []\<rparr>,
      ConnectDialConfig = \<lparr>Dialer = None, Host = [], Path = [], ServerName = [],
                           TLS = False, Insecure = False\<rparr>\<rparr>"

definition new_object :: "ConnectConfig \<Rightarrow> store \<Rightarrow> ref \<times> store" where
  "new_object v h = (length h, h @ [v])"

text \<open>Calling \<open>option(c)\<close> with the pointer \<open>c\<close>, and the loop over the options.\<close>

definition call_option :: "ConnectOption \<Rightarrow> ref \<Rightarrow> store \<Rightarrow> store" where
  "call_option opt c h = h[c := opt (h ! c)]"

fun apply_options :: "ConnectOption list \<Rightarrow> ref \<Rightarrow> store \<Rightarrow> store" where
  "apply_options [] c h = h"
| "apply_options (opt # opts) c h = apply_options opts c (call_option opt c h)"

definition Clone_ConnectAddrConfig :: "ConnectAddrConfig \<Rightarrow> ConnectAddrConfig" where
  "Clone_ConnectAddrConfig c = \<lparr>Addr = Addr c\<rparr>"

definition Clone_ConnectDialConfig :: "ConnectDialConfig \<Rightarrow> ConnectDialConfig" where
  "Clone_ConnectDialConfig c = c"

text \<open>\<open>ConnectConfig.Clone\<close> allocates a new configuration and returns the pointer to it.\<close>

definition Clone_ConnectConfig :: "ref \<Rightarrow> store \<Rightarrow> ref \<times> store" where
  "Clone_ConnectConfig c h =
     new_object \<lparr>ConnectAddrConfig = Clone_ConnectAddrConfig (ConnectAddrConfig (h ! c)),
                 ConnectDialConfig = Clone_ConnectDialConfig (ConnectDialConfig (h ! c))\<rparr> h"

definition Connect ::
  "network \<Rightarrow> Context \<Rightarrow> ConnectOption list \<Rightarrow> store
     \<Rightarrow> ((error + websocket_Conn) \<times> net_Conn list) outcome \<times> store" where
  "Connect net ctx opts h =
     (let (cfg, h1) = new_object zero_ConnectConfig h;
          h2 = apply_options opts cfg h1
      in (ConnectWithConfig net ctx (h2 ! cfg), h2))"

definition NewDialer :: "ConnectOption list \<Rightarrow> store \<Rightarrow> ref \<times> store" where
  "NewDialer options h =
     (let (wc, h1) = new_object zero_ConnectConfig h
      in (wc, apply_options options wc h1))"

text \<open>
  The methods of \<open>*Dialer\<close>. A receiver that points to no object (nil) makes the first
  access to \<open>wc.config\<close> a nil dereference.
\<close>

definition DialContext ::
  "ref \<Rightarrow> network \<Rightarrow> Context \<Rightarrow> ConnectOption list \<Rightarrow> store
     \<Rightarrow> ((error + websocket_Conn) \<times> net_Conn list) outcome \<times> store" where
  "DialContext wc net ctx options h =
     (if wc < length h then
        (let (cfg, h1) = Clone_ConnectConfig wc h;
             h2 = apply_options options cfg h1
         in (ConnectWithConfig net ctx (h2 ! cfg), h2))
      else (Panic ''invalid memory address or nil pointer dereference'', h))"

definition Dial ::
  "ref \<Rightarrow> network \<Rightarrow> ConnectOption list \<Rightarrow> store
     \<Rightarrow> ((error + websocket_Conn) \<times> net_Conn list) outcome \<times> store" where
  "Dial wc net options h = DialContext wc net Background options h"

definition DialTCP ::
  "ref \<Rightarrow> network \<Rightarrow> ConnectOption list \<Rightarrow> store
     \<Rightarrow> ((error + websocket_Conn) \<times> net_Conn list) outcome \<times> store" where
  "DialTCP wc net options h = Dial wc net options h"

definition DialContextTCP ::
  "ref \<Rightarrow> network \<Rightarrow> Context \<Rightarrow> ConnectOption list \<Rightarrow> store
     \<Rightarrow> ((error + websocket_Conn) \<times> net_Conn list) outcome \<times> store" where
  "DialContextTCP wc net ctx options h = DialContext wc net ctx options h"

subsection \<open>An example network\<close>

text \<open>
  A network in which every step succeeds: the websocket configuration keeps the two URLs
  (unparsed, as the path), the dialer returns connection 0, and both handshakes succeed.
\<close>

definition example_URL :: "string \<Rightarrow> url_URL" where
  "example_URL s = \<lparr>URL_Scheme = [], URL_Host = [], URL_Path = s\<rparr>"

definition example_network :: network where
  "example_network =
     \<lparr>websocket_NewConfig = (\<lambda>server origin.
        Inr \<lparr>Location = Some (example_URL server), Origin = Some (example_URL origin),
             Header = Map.empty, Version = ProtocolVersionHybi13, ws_Dialer = None\<rparr>),
      dialer_DialContext = (\<lambda>d ctx network address. Inr (TCPConn 0)),
      HandshakeContext = (\<lambda>c ctx. None),
      websocket_NewClient = (\<lambda>cfg c. Inr \<lparr>ws_config = cfg, rwc = c, PayloadType = 1\<rparr>)\<rparr>"

section \<open>The tunnel handler and the timed copy engine\<close>

subsection \<open>Byte slices\<close>

text \<open>
  A Go slice \<open>s\<close> of bytes: \<open>elems\<close> are its elements \<open>s[0:len(s)]\<close>, and \<open>spare\<close> is the
  rest of its backing array, from \<open>len(s)\<close> to \<open>cap(s)\<close>. \<open>reslice s lo hi\<close> is the slice
  expression \<open>s[lo:hi]\<close>, which panics unless \<open>0 \<le> lo \<le> hi \<le> cap(s)\<close>, and
  \<open>make_bytes n\<close> is \<open>make([]byte, n)\<close>.
\<close>

type_synonym byte = "8 word"

record byte_slice =
  elems :: "byte list"
  spare :: "byte list"

definition len :: "byte_slice \<Rightarrow> nat" where
  "len s = length (elems s)"

definition cap :: "byte_slice \<Rightarrow> nat" where
  "cap s = length (elems s) + length (spare s)"

definition make_bytes :: "nat \<Rightarrow> byte_slice" where
  "make_bytes n = \<lparr>elems = replicate n 0, spare = []\<rparr>"

definition reslice :: "byte_slice \<Rightarrow> int \<Rightarrow> int \<Rightarrow> byte_slice outcome" where
  "reslice s lo hi =
     (if 0 \<le> lo \<and> lo \<le> hi \<and> hi \<le> int (cap s)
      then Return \<lparr>elems = take (nat hi - nat lo) (drop (nat lo) (elems s @ spare s)),
                   spare = drop (nat hi) (elems s @ spare s)\<rparr>
      else Panic ''slice bounds out of range'')"

text \<open>
  What a \<open>Read(buf)\<close> that stores the bytes \<open>p\<close> leaves in \<open>buf\<close>: \<open>p\<close> over the first
  elements, as far as the slice reaches; its length and capacity stay.
\<close>

definition stored :: "byte_slice \<Rightarrow> byte list \<Rightarrow> byte_slice" where
  "stored buf p = buf\<lparr>elems := take (len buf) p @ drop (length p) (elems buf)\<rparr>"

subsection \<open>\<open>CopyBufferWithWriteTimeout\<close>\<close>

text \<open>
  The source, the sink and the clock are the function's environment. \<open>'e\<close> is the state
  of the world outside the function; each call answers and moves that state on.
  \<open>Read io e buf\<close> is \<open>src.Read(buf)\<close>: the count and the error it returns and the bytes it
  has stored into \<open>buf\<close>. \<open>Now\<close> is \<open>time.Now()\<close> (nanoseconds), \<open>SetWriteDeadline\<close> and
  \<open>Write\<close> are the methods of \<open>dst\<close>; \<open>Write\<close> is handed the elements of the slice it is
  called with. Counts are Go \<open>int\<close>s and are only compared here; \<open>written\<close> is an
  \<open>int64\<close>.
\<close>

record 'e io =
  Read :: "'e \<Rightarrow> byte_slice \<Rightarrow> (int \<times> error option \<times> byte list) \<times> 'e"
  Now :: "'e \<Rightarrow> int \<times> 'e"
  SetWriteDeadline :: "'e \<Rightarrow> int \<Rightarrow> error option \<times> 'e"
  Write :: "'e \<Rightarrow> byte list \<Rightarrow> (int \<times> error option) \<times> 'e"

text \<open>
  The body of \<open>if nr > 0\<close>. \<open>Inl\<close> leaves the loop, with what the function then returns
  (or the panic of \<open>buf[0:nr]\<close>); \<open>Inr\<close> goes on with the new count.
\<close>

definition write_chunk ::
  "'e io \<Rightarrow> int \<Rightarrow> byte_slice \<Rightarrow> int \<Rightarrow> 64 word \<Rightarrow> 'e
     \<Rightarrow> ((64 word \<times> error option) outcome + 64 word) \<times> 'e" where
  "write_chunk io timeout buf nr written e =
     (case Now io e of (now, e1) \<Rightarrow>
       (case SetWriteDeadline io e1 (now + timeout) of
          (Some err, e2) \<Rightarrow> (Inl (Return (written, Some err)), e2)
        | (None, e2) \<Rightarrow>
           (case reslice buf 0 nr of
              Panic msg \<Rightarrow> (Inl (Panic msg), e2)
            | Return chunk \<Rightarrow>
               (case Write io e2 (elems chunk) of ((nw0, ew0), e3) \<Rightarrow>
                  let (nw, ew) =
                        (if nw0 < 0 \<or> nr < nw0
                         then (0, if ew0 = None then Some (errors_New ''invalid write result'')
                                  else ew0)
                         else (nw0, ew0));
                      written' = written + word_of_int nw
                  in if ew \<noteq> None then (Inl (Return (written', ew)), e3)
                     else if nr \<noteq> nw then (Inl (Return (written', Some ErrShortWrite)), e3)
                     else (Inr written', e3)))))"

text \<open>
  One pass of the \<open>for\<close> loop. The named result \<open>err\<close> is nil whenever the pass reaches the
  test of \<open>er\<close>, so on \<open>io.EOF\<close> the function returns nil.
\<close>

definition iteration ::
  "'e io \<Rightarrow> int \<Rightarrow> byte_slice \<Rightarrow> 64 word \<Rightarrow> 'e
     \<Rightarrow> ((64 word \<times> error option) outcome + byte_slice \<times> 64 word) \<times> 'e" where
  "iteration io timeout buf written e =
     (case Read io e buf of ((nr, er, p), e1) \<Rightarrow>
      let buf1 = stored buf p in
       (case (if nr > 0 then write_chunk io timeout buf1 nr written e1 else (Inr written, e1)) of
          (Inl res, e2) \<Rightarrow> (Inl res, e2)
        | (Inr written', e2) \<Rightarrow>
            (case er of
               Some err \<Rightarrow> (Inl (Return (written', if err \<noteq> EOF then Some err else None)), e2)
             | None \<Rightarrow> (Inr (buf1, written'), e2))))"

text \<open>The loop may run forever (a source that never ends): then the value is \<open>None\<close>.\<close>

partial_function (option) copy_loop ::
  "'e io \<Rightarrow> int \<Rightarrow> byte_slice \<Rightarrow> 64 word \<Rightarrow> 'e
     \<Rightarrow> ((64 word \<times> error option) outcome \<times> 'e) option" where
  "copy_loop io timeout buf written e =
     (case iteration io timeout buf written e of
        (Inl res, e') \<Rightarrow> Some (res, e')
      | (Inr (buf', written'), e') \<Rightarrow> copy_loop io timeout buf' written' e')"

definition CopyBufferWithWriteTimeout ::
  "'e io \<Rightarrow> byte_slice \<Rightarrow> int \<Rightarrow> 'e \<Rightarrow> ((64 word \<times> error option) outcome \<times> 'e) option" where
  "CopyBufferWithWriteTimeout io buf timeout e = copy_loop io timeout buf 0 e"

subsection \<open>Recording the calls on the sink\<close>

text \<open>
  To say what the function does to the sink, an environment is wrapped into one that
  answers as before and also keeps the list of the calls made on the sink, each with its
  argument and its answer (as a recording writer would in a test).
  \<open>bytes_written\<close> is the total of the bytes the sink has reported written in those
  calls, a report being a count between 0 and the number of bytes it was handed.
\<close>

datatype call =
    SetWriteDeadline_call int "error option"
  | Write_call "byte list" int "error option"

definition recording :: "'e io \<Rightarrow> ('e \<times> call list) io" where
  "recording io =
     \<lparr>Read = (\<lambda>(e, calls) buf. case Read io e buf of (r, e') \<Rightarrow> (r, (e', calls))),
      Now = (\<lambda>(e, calls). case Now io e of (t, e') \<Rightarrow> (t, (e', calls))),
      SetWriteDeadline = (\<lambda>(e, calls) t.
         case SetWriteDeadline io e t of
           (err, e') \<Rightarrow> (err, (e', calls @ [SetWriteDeadline_call t err]))),
      Write = (\<lambda>(e, calls) p.
         case Write io e p of
           ((n, err), e') \<Rightarrow> ((n, err), (e', calls @ [Write_call p n err])))\<rparr>"

fun accepted :: "call \<Rightarrow> int" where
  "accepted (Write_call p nw ew) = (if 0 \<le> nw \<and> nw \<le> int (length p) then nw else 0)"
| "accepted (SetWriteDeadline_call t err) = 0"

definition bytes_written :: "call list \<Rightarrow> int" where
  "bytes_written calls = sum_list (map accepted calls)"

text \<open>
  An example environment: the source delivers the reads of a script, one per call, and
  then \<open>io.EOF\<close>; the clock stands at 1000; the sink takes at most \<open>limit\<close> bytes per
  write and reports no error.
\<close>

definition example_io :: "int \<Rightarrow> (int \<times> error option \<times> byte list) list io" where
  "example_io limit =
     \<lparr>Read = (\<lambda>e buf. case e of [] \<Rightarrow> ((0, Some EOF, []), []) | r # rs \<Rightarrow> (r, rs)),
      Now = (\<lambda>e. (1000, e)),
      SetWriteDeadline = (\<lambda>e t. (None, e)),
      Write = (\<lambda>e p. ((min (int (length p)) limit, None), e))\<rparr>"

text \<open>
  A second example environment, with the same source and clock: setting the deadline
  answers \<open>dl\<close>, and the sink takes all the bytes of a write and reports \<open>ew\<close> with them.
\<close>

definition faulty_io ::
  "error option \<Rightarrow> error option \<Rightarrow> (int \<times> error option \<times> byte list) list io" where
  "faulty_io dl ew =
     \<lparr>Read = (\<lambda>e buf. case e of [] \<Rightarrow> ((0, Some EOF, []), []) | r # rs \<Rightarrow> (r, rs)),
      Now = (\<lambda>e. (1000, e)),
      SetWriteDeadline = (\<lambda>e t. (dl, e)),
      Write = (\<lambda>e p. ((int (length p), ew), e))\<rparr>"

text \<open>The error of a write whose count is negative or larger than the request.\<close>

definition invalid_write :: "error option \<Rightarrow> error" where
  "invalid_write ew = (case ew of None \<Rightarrow> errors_New ''invalid write result'' | Some x \<Rightarrow> x)"

subsection \<open>The buffer pool\<close>

definition DefaultBufferSize :: int where
  "DefaultBufferSize = 16 * 1024"

definition DefaultWriteTimeout :: int where
  "DefaultWriteTimeout = 15 * 1000000000"

text \<open>
  A \<open>sync.Pool\<close> of buffers: the buffers it holds, and the length of the buffers its
  \<open>New\<close> function makes. \<open>Get\<close> takes some buffer out of the pool or ignores the pool and
  calls \<open>New\<close>; which one is not determined, so the choice is a parameter (\<open>Some i\<close>: the
  buffer at position \<open>i\<close>, if there is one). The pool holds pointers to slices; a buffer
  belongs to whoever took it until it is put back, so the model keeps the slices.
\<close>

record sync_Pool =
  pooled :: "byte_slice list"
  New_len :: nat

definition Pool_Get :: "sync_Pool \<Rightarrow> nat option \<Rightarrow> byte_slice \<times> sync_Pool" where
  "Pool_Get pool pick =
     (case pick of
        Some i \<Rightarrow>
          if i < length (pooled pool)
          then (pooled pool ! i,
                pool\<lparr>pooled := take i (pooled pool) @ drop (Suc i) (pooled pool)\<rparr>)
          else (make_bytes (New_len pool), pool)
      | None \<Rightarrow> (make_bytes (New_len pool), pool))"

definition Pool_Put :: "sync_Pool \<Rightarrow> byte_slice \<Rightarrow> sync_Pool" where
  "Pool_Put pool b = pool\<lparr>pooled := b # pooled pool\<rparr>"

text \<open>
  The pools of the program: the package-level \<open>sharedBufferPool\<close> and the pools that
  \<open>newBufferPool\<close> has allocated. A \<open>*sync.Pool\<close> is \<open>shared_ptr\<close> or the number of an
  allocated pool.
\<close>

datatype pool_ptr = shared_ptr | new_ptr nat

record pools =
  pool_at :: "pool_ptr \<Rightarrow> sync_Pool"
  next_pool :: nat

definition initial_pools :: pools where
  "initial_pools =
     \<lparr>pool_at = (\<lambda>p. \<lparr>pooled = [], New_len = nat DefaultBufferSize\<rparr>), next_pool = 0\<rparr>"

definition newBufferPool :: "int \<Rightarrow> pools \<Rightarrow> pool_ptr \<times> pools" where
  "newBufferPool n st =
     (if n = DefaultBufferSize \<or> n \<le> 0 then (shared_ptr, st)
      else (new_ptr (next_pool st),
            st\<lparr>pool_at := (pool_at st)(new_ptr (next_pool st) :=
                              \<lparr>pooled = [], New_len = nat n\<rparr>),
               next_pool := Suc (next_pool st)\<rparr>))"

text \<open>
  Full pools: every buffer a pool holds has its length equal to its capacity.
\<close>

definition pool_full :: "sync_Pool \<Rightarrow> bool" where
  "pool_full pool = list_all (\<lambda>b. len b = cap b) (pooled pool)"

definition pools_full :: "pools \<Rightarrow> bool" where
  "pools_full st = (\<forall>p. pool_full (pool_at st p))"

subsection \<open>The handler\<close>

text \<open>
  \<open>websocket.Origin\<close> of golang.org/x/net/websocket (not part of the repository), after
  its source: the \<open>Origin\<close> header of a version 13 request, nil without error when the
  header is not set or empty, and otherwise what \<open>url.ParseRequestURI\<close> makes of it. The
  URL parser is a parameter.
\<close>

record http_Request =
  req_Header :: "string \<rightharpoonup> string list"

definition Header_Get :: "(string \<rightharpoonup> string list) \<Rightarrow> string \<Rightarrow> string" where
  "Header_Get h key = (case h key of None \<Rightarrow> [] | Some [] \<Rightarrow> [] | Some (v # vs) \<Rightarrow> v)"

definition websocket_Origin ::
  "(string \<Rightarrow> error + url_URL) \<Rightarrow> websocket_Config \<Rightarrow> http_Request
     \<Rightarrow> url_URL option \<times> error option" where
  "websocket_Origin ParseRequestURI config req =
     (let origin = (if Version config = ProtocolVersionHybi13
                    then Header_Get (req_Header req) ''Origin'' else [])
      in if origin = [] then (None, None)
         else (case ParseRequestURI origin of
                 Inl err \<Rightarrow> (None, Some err)
               | Inr u \<Rightarrow> (Some u, None)))"

text \<open>\<open>checkOrigin\<close> assigns to \<open>config.Origin\<close>: it returns the configuration with the error.\<close>

definition checkOrigin ::
  "(string \<Rightarrow> error + url_URL) \<Rightarrow> websocket_Config \<Rightarrow> http_Request
     \<Rightarrow> websocket_Config \<times> error option" where
  "checkOrigin ParseRequestURI config req =
     (let (origin, err) = websocket_Origin ParseRequestURI config req;
          config' = config\<lparr>Origin := origin\<rparr>
      in if err = None \<and> Origin config' = None
         then (config', Some (errors_New ''null origin''))
         else (config', err))"

text \<open>
  \<open>websocket.Server\<close>, of which the model keeps the handshake function (its \<open>Handler\<close> is
  the relay \<open>handleWebSocket\<close>). \<open>accept\<close> is what the library does with a request whose
  websocket handshake it has read: it calls the handshake function, answers
  403 Forbidden when that returns an error, and otherwise upgrades the connection and
  runs the handler.
\<close>

record websocket_Server =
  Handshake :: "websocket_Config \<Rightarrow> http_Request \<Rightarrow> websocket_Config \<times> error option"

datatype upgrade = Forbidden | Upgraded websocket_Config

definition accept :: "websocket_Server \<Rightarrow> websocket_Config \<Rightarrow> http_Request \<Rightarrow> upgrade" where
  "accept srv config req =
     (case Handshake srv config req of
        (config', Some err) \<Rightarrow> Forbidden
      | (config', None) \<Rightarrow> Upgraded config')"

record Handler =
  bufferPool :: pool_ptr
  wsServer :: "websocket_Server option"
  defaultTargetAddr :: string
  bufferSize :: int

type_synonym HandlerOption = "Handler \<Rightarrow> Handler"

definition WithHandlerBufferSize :: "int \<Rightarrow> HandlerOption" where
  "WithHandlerBufferSize n = (\<lambda>h. h\<lparr>bufferSize := n\<rparr>)"

definition NewHandler ::
  "(string \<Rightarrow> error + url_URL) \<Rightarrow> string \<Rightarrow> HandlerOption list \<Rightarrow> pools \<Rightarrow> Handler \<times> pools" where
  "NewHandler ParseRequestURI targetAddr opts st =
     (let h0 = \<lparr>bufferPool = shared_ptr, wsServer = None, defaultTargetAddr = targetAddr,
                bufferSize = 0\<rparr>;
          h1 = foldl (\<lambda>h opt. opt h) h0 opts;
          h2 = (if bufferSize h1 = 0 then h1\<lparr>bufferSize := DefaultBufferSize\<rparr> else h1);
          (pool, st') = newBufferPool (bufferSize h2) st
      in (h2\<lparr>bufferPool := pool,
             wsServer := Some \<lparr>Handshake = checkOrigin ParseRequestURI\<rparr>\<rparr>, st'))"

text \<open>
  \<open>getBuffer\<close> and \<open>putBuffer\<close>. A buffer is handed over as a pointer to a slice;
  \<open>putBuffer\<close> is given the slice behind the pointer, or \<open>None\<close> for nil.
\<close>

definition getBuffer :: "Handler \<Rightarrow> nat option \<Rightarrow> pools \<Rightarrow> byte_slice \<times> pools" where
  "getBuffer h pick st =
     (case Pool_Get (pool_at st (bufferPool h)) pick of
        (buffer, pool') \<Rightarrow> (buffer, st\<lparr>pool_at := (pool_at st)(bufferPool h := pool')\<rparr>))"

definition putBuffer :: "Handler \<Rightarrow> byte_slice option \<Rightarrow> pools \<Rightarrow> pools outcome" where
  "putBuffer h buffer st =
     (case buffer of
        None \<Rightarrow> Return st
      | Some b \<Rightarrow>
         (case reslice b 0 (int (cap b)) of
            Panic msg \<Rightarrow> Panic msg
          | Return b' \<Rightarrow>
              Return (st\<lparr>pool_at := (pool_at st)(bufferPool h :=
                                       Pool_Put (pool_at st (bufferPool h)) b')\<rparr>)))"

section \<open>Server lifecycle (server/main.go)\<close>

text \<open>
  A \<open>chan struct{}\<close> on which nothing is ever sent: all that happens to it is
  \<open>close\<close>, which panics on a channel that is closed already. Both channels of a server
  are made by \<open>NewServer\<close>, and the accessors hand them out receive-only, so only the
  server's own methods close them.
\<close>

record chan =
  is_closed :: bool

definition close_chan :: "chan \<Rightarrow> chan outcome" where
  "close_chan c = (if is_closed c then Panic ''close of closed channel''
                   else Return (c\<lparr>is_closed := True\<rparr>))"

record http_Server =
  srv_Addr :: string
  srv_pattern :: string
  srv_Handler :: Handler
  ReadHeaderTimeout :: int
  MaxHeaderBytes :: int

text \<open>\<open>onListenCloseOnce\<close> is the \<open>sync.Once\<close>: whether it has fired.\<close>

record Server =
  listenErr :: "error option"
  shutdowned :: chan
  onListened :: chan
  server :: "http_Server option"
  wsHandler :: Handler
  path :: string
  listenAddr :: string
  onListenCloseOnce :: bool

type_synonym ServerOption = "Server \<Rightarrow> Server"

definition NewServer :: "string \<Rightarrow> string \<Rightarrow> Handler \<Rightarrow> ServerOption list \<Rightarrow> Server" where
  "NewServer addr pattern handler opts =
     foldl (\<lambda>ps opt. opt ps)
       \<lparr>listenErr = None, shutdowned = \<lparr>is_closed = False\<rparr>,
        onListened = \<lparr>is_closed = False\<rparr>, server = None, wsHandler = handler,
        path = pattern, listenAddr = addr, onListenCloseOnce = False\<rparr>
       opts"

text \<open>
  \<open>closeOnListened\<close>: \<open>sync.Once.Do\<close> runs the function unless the Once has fired, and
  has fired afterwards, also when the function panics.
\<close>

definition closeOnListened :: "Server \<Rightarrow> unit outcome \<times> Server" where
  "closeOnListened ps =
     (if onListenCloseOnce ps then (Return (), ps)
      else (case close_chan (onListened ps) of
              Panic msg \<Rightarrow> (Panic msg, ps\<lparr>onListenCloseOnce := True\<rparr>)
            | Return c \<Rightarrow> (Return (), ps\<lparr>onListened := c, onListenCloseOnce := True\<rparr>)))"

definition OnListened :: "Server \<Rightarrow> chan" where
  "OnListened ps = onListened ps"

definition ListenErr :: "Server \<Rightarrow> error option" where
  "ListenErr ps = listenErr ps"

definition Shutdowned :: "Server \<Rightarrow> chan" where
  "Shutdowned ps = shutdowned ps"

definition ShutdownedBool :: "Server \<Rightarrow> bool" where
  "ShutdownedBool ps = is_closed (shutdowned ps)"

text \<open>
  The operating system and the HTTP library: \<open>net_Listen\<close> binds (the listener's number,
  or the error), \<open>http_Serve\<close> is \<open>server.Serve(ln)\<close>, which returns an error when it
  returns and \<open>None\<close> when it serves forever, and \<open>http_Shutdown\<close> is
  \<open>server.Shutdown(ctx)\<close>. \<open>pattern_error\<close> is the pattern parser of \<open>http.ServeMux\<close>:
  the error with which \<open>registerErr\<close> refuses a pattern that is not empty, and \<open>None\<close>
  for a pattern that it takes.
\<close>

record host =
  net_Listen :: "string \<Rightarrow> string \<Rightarrow> error + nat"
  http_Serve :: "http_Server \<Rightarrow> nat \<Rightarrow> error option"
  http_Shutdown :: "http_Server \<Rightarrow> Context \<Rightarrow> error option"
  pattern_error :: "string \<Rightarrow> error option"

text \<open>
  \<open>mux.Handle(pattern, handler)\<close> on the mux that \<open>Server()\<close> has just made. It panics
  with the error of \<open>registerErr\<close>: \<open>http: invalid pattern\<close> for the empty pattern, and
  the parser's error for a pattern that does not parse. The handler is never a nil
  interface value (it holds the \<open>*Handler\<close>), and a new mux has no pattern that the
  new one could conflict with.
\<close>

definition mux_Handle :: "host \<Rightarrow> string \<Rightarrow> unit outcome" where
  "mux_Handle env pattern =
     (if pattern = [] then Panic ''http: invalid pattern''
      else case pattern_error env pattern of
             Some err \<Rightarrow> Panic (Error err)
           | None \<Rightarrow> Return ())"

text \<open>
  \<open>Server()\<close> builds the HTTP server on first use, and panics when \<open>mux.Handle\<close> does;
  \<open>ps.server\<close> is not assigned then.
\<close>

definition get_Server :: "host \<Rightarrow> Server \<Rightarrow> (http_Server \<times> Server) outcome" where
  "get_Server env ps =
     (case server ps of
        Some srv \<Rightarrow> Return (srv, ps)
      | None \<Rightarrow>
          (case mux_Handle env (path ps) of
             Panic msg \<Rightarrow> Panic msg
           | Return u \<Rightarrow>
               (let srv = \<lparr>srv_Addr = listenAddr ps, srv_pattern = path ps,
                           srv_Handler = wsHandler ps, ReadHeaderTimeout = 5 * 1000000000,
                           MaxHeaderBytes = 16 * 1024\<rparr>
                in Return (srv, ps\<lparr>server := Some srv\<rparr>))))"

text \<open>
  \<open>listenAndServe\<close> and \<open>Serve\<close> return the error (never nil) or panic, with the server
  as they leave it; the value is \<open>None\<close> when \<open>server.Serve\<close> does not return. The
  deferred \<open>ln.Close()\<close> acts on the listener only.
\<close>

definition listenAndServe ::
  "host \<Rightarrow> Server \<Rightarrow> http_Server \<Rightarrow> (error outcome \<times> Server) option" where
  "listenAndServe env ps srv =
     (let addr = (if listenAddr ps = [] then '':http'' else listenAddr ps) in
      case net_Listen env ''tcp'' addr of
        Inl err \<Rightarrow> Some (Return err, ps\<lparr>listenErr := Some err\<rparr>)
      | Inr ln \<Rightarrow>
         (case closeOnListened ps of
            (Panic msg, ps1) \<Rightarrow> Some (Panic msg, ps1)
          | (Return u, ps1) \<Rightarrow>
              (case http_Serve env srv ln of
                 None \<Rightarrow> None
               | Some err \<Rightarrow> Some (Return err, ps1))))"

text \<open>
  \<open>Serve\<close>. A panic of \<open>ps.Server()\<close> leaves \<open>Serve\<close> at once: nothing is deferred yet and
  the server is as it was. Otherwise, when \<open>listenAndServe\<close> has returned or panicked,
  the deferred calls run, last deferred first: \<open>close(ps.shutdowned)\<close>, then
  \<open>ps.closeOnListened()\<close>. A deferred call that panics does not keep the next one from
  running, and the last panic is the one that leaves \<open>Serve\<close>.
\<close>

definition Serve :: "host \<Rightarrow> Server \<Rightarrow> (error outcome \<times> Server) option" where
  "Serve env ps =
     (case get_Server env ps of
        Panic msg \<Rightarrow> Some (Panic msg, ps)
      | Return (srv, ps1) \<Rightarrow>
         (case listenAndServe env ps1 srv of
            None \<Rightarrow> None
          | Some (res, ps2) \<Rightarrow>
             (let (r1, ps3) =
                    (case close_chan (shutdowned ps2) of
                       Panic msg \<Rightarrow> (Panic msg, ps2)
                     | Return c \<Rightarrow> (Return (), ps2\<lparr>shutdowned := c\<rparr>));
                  (r2, ps4) = closeOnListened ps3
              in Some (case r2 of
                         Panic msg \<Rightarrow> Panic msg
                       | Return u \<Rightarrow> (case r1 of Panic msg \<Rightarrow> Panic msg | Return u \<Rightarrow> res),
                       ps4))))"

definition Shutdown :: "host \<Rightarrow> Context \<Rightarrow> Server \<Rightarrow> error option outcome \<times> Server" where
  "Shutdown env ctx ps =
     (case closeOnListened ps of
        (Panic msg, ps1) \<Rightarrow> (Panic msg, ps1)
      | (Return u, ps1) \<Rightarrow>
          (case server ps1 of
             None \<Rightarrow> (Panic ''invalid memory address or nil pointer dereference'', ps1)
           | Some srv \<Rightarrow> (Return (http_Shutdown env srv ctx), ps1)))"

definition Close :: "host \<Rightarrow> Server \<Rightarrow> error option outcome \<times> Server" where
  "Close env ps = Shutdown env (WithTimeout Background (3 * 1000000000)) ps"

text \<open>
  A host on which every bind fails: the address is in use. Its patterns are paths of
  literal segments (no blank, no tab, no brace), which the mux takes when they hold a
  slash.
\<close>

definition busy_host :: host where
  "busy_host =
     \<lparr>net_Listen = (\<lambda>network addr. Inl (errors_New ''bind: address already in use'')),
      http_Serve = (\<lambda>srv ln. None),
      http_Shutdown = (\<lambda>srv ctx. None),
      pattern_error = (\<lambda>pattern. if CHR ''/'' \<in> set pattern then None
                                  else Some (errors_New ''host/path missing /''))\<rparr>"

definition example_Handler :: Handler where
  "example_Handler =
     \<lparr>bufferPool = shared_ptr, wsServer = None, defaultTargetAddr = ''127.0.0.1:22'',
      bufferSize = DefaultBufferSize\<rparr>"

definition example_Server :: Server where
  "example_Server = NewServer '':8080'' ''/'' example_Handler []"

text \<open>The HTTP server that \<open>Server()\<close> builds for \<open>example_Server\<close>.\<close>

definition example_http_Server :: http_Server where
  "example_http_Server =
     \<lparr>srv_Addr = '':8080'', srv_pattern = ''/'', srv_Handler = example_Handler,
      ReadHeaderTimeout = 5 * 1000000000, MaxHeaderBytes = 16 * 1024\<rparr>"

text \<open>A server made with the empty path.\<close>

definition pathless_Server :: Server where
  "pathless_Server = NewServer '':8080'' [] example_Handler []"

subsection \<open>Example requests and buffers\<close>

text \<open>
  A URL parser that accepts what begins with \<open>http\<close>, a version 13 configuration as the
  library hands it to the handshake function, requests with and without an \<open>Origin\<close>
  header, and a buffer of capacity 4 that its user has cut down to length 2.
\<close>

definition example_parse :: "string \<Rightarrow> error + url_URL" where
  "example_parse s = (if HasPrefix s ''http'' then Inr (example_URL s)
                      else Inl (errors_New ''invalid URI for request''))"

definition example_config :: websocket_Config where
  "example_config =
     \<lparr>Location = None, Origin = None, Header = Map.empty, Version = ProtocolVersionHybi13,
      ws_Dialer = None\<rparr>"

definition request_with_origin :: "string \<Rightarrow> http_Request" where
  "request_with_origin v = \<lparr>req_Header = [''Origin'' \<mapsto> [v]]\<rparr>"

definition request_without_origin :: http_Request where
  "request_without_origin = \<lparr>req_Header = Map.empty\<rparr>"

definition example_buffer :: byte_slice where
  "example_buffer = \<lparr>elems = [1, 2], spare = [0, 0]\<rparr>"

section \<open>Properties of the client configuration\<close>

lemma HasPrefix_slash: "HasPrefix s ''/'' \<longleftrightarrow> (\<exists>t. s = CHR ''/'' # t)"
  by (cases s) (auto simp: HasPrefix_def)

lemma ensureLeadingSlash_prefix: "HasPrefix (ensureLeadingSlash p) ''/''"
  by (simp add: ensureLeadingSlash_def HasPrefix_slash)

lemma generateDialConfig_Path:
  assumes "generateDialConfig addr cfg = Inr r"
  shows "Path (pConnectDialConfig r) = ensureLeadingSlash (Path cfg)"
  using assms
  by (auto simp: generateDialConfig_def Let_def split: sum.splits if_splits)

text \<open>
  C5. Path normalisation: \<open>ensureLeadingSlash\<close> returns a path that begins with \<open>/\<close>; it
  returns its input unchanged when that already begins with \<open>/\<close> and otherwise puts \<open>/\<close>
  in front; \<open>ws\<close> becomes \<open>/ws\<close> and the empty path becomes \<open>/\<close>. Every dial
  configuration that \<open>generateDialConfig\<close> produces carries the normalised path of the
  configured one, so the path used for the connection begins with \<open>/\<close>.
\<close>

theorem ensureLeadingSlash_begins_with_slash:
  "HasPrefix (ensureLeadingSlash p) ''/''
   \<and> (HasPrefix p ''/'' \<longrightarrow> ensureLeadingSlash p = p)
   \<and> (\<not> HasPrefix p ''/'' \<longrightarrow> ensureLeadingSlash p = ''/'' @ p)
   \<and> ensureLeadingSlash ''ws'' = ''/ws''
   \<and> ensureLeadingSlash '''' = ''/''
   \<and> (generateDialConfig addr cfg = Inr r \<longrightarrow>
        Path (pConnectDialConfig r) = ensureLeadingSlash (Path cfg)
        \<and> HasPrefix (Path (pConnectDialConfig r)) ''/'')"
proof -
  have a: "ensureLeadingSlash ''ws'' = ''/ws''"
    by (simp add: ensureLeadingSlash_def HasPrefix_def)
  have b: "ensureLeadingSlash '''' = ''/''"
    by (simp add: ensureLeadingSlash_def HasPrefix_def)
  have c: "generateDialConfig addr cfg = Inr r \<longrightarrow>
        Path (pConnectDialConfig r) = ensureLeadingSlash (Path cfg)
        \<and> HasPrefix (Path (pConnectDialConfig r)) ''/''"
    using generateDialConfig_Path [of addr cfg r] ensureLeadingSlash_prefix [of "Path cfg"]
    by simp
  have d: "HasPrefix p ''/'' \<longrightarrow> ensureLeadingSlash p = p"
    by (simp add: ensureLeadingSlash_def)
  have e: "\<not> HasPrefix p ''/'' \<longrightarrow> ensureLeadingSlash p = ''/'' @ p"
    by (simp add: ensureLeadingSlash_def)
  show ?thesis
    using a b c d e ensureLeadingSlash_prefix [of p] by blast
qed

lemma parseAddrAndPort_9000:
  "parseAddrAndPort ''example.com:9000'' tls = Inr (''example.com'', ''9000'')"
  by (simp add: parseAddrAndPort_def SplitHostPort_def SplitHostPort_rest_def
      LastIndexByteString_def Let_def)

lemma generateDialConfig_9000:
  "generateDialConfig ''example.com:9000''
     \<lparr>Dialer = None, Host = [], Path = ''ws'', ServerName = [], TLS = True, Insecure = False\<rparr>
   = Inr \<lparr>pConnectDialConfig =
            \<lparr>Dialer = Some defaultDialer, Host = ''example.com'', Path = ''/ws'',
             ServerName = ''example.com'', TLS = True, Insecure = False\<rparr>,
          splitAddr = ''example.com'', splitPort = ''9000''\<rparr>"
  by (simp add: generateDialConfig_def parseAddrAndPort_9000 ensureLeadingSlash_def
      HasPrefix_def)

theorem ensureLeadingSlash_begins_with_slash_witness:
  "generateDialConfig ''example.com:9000''
     \<lparr>Dialer = None, Host = [], Path = ''ws'', ServerName = [], TLS = True, Insecure = False\<rparr>
   = Inr \<lparr>pConnectDialConfig =
            \<lparr>Dialer = Some defaultDialer, Host = ''example.com'', Path = ''/ws'',
             ServerName = ''example.com'', TLS = True, Insecure = False\<rparr>,
          splitAddr = ''example.com'', splitPort = ''9000''\<rparr>
   \<and> HasPrefix ''/ws'' ''/''
   \<and> \<not> HasPrefix ''ws'' ''/''
   \<and> ensureLeadingSlash ''ws'' = ''/'' @ ''ws''
   \<and> ensureLeadingSlash ''/ws'' = ''/ws''"
proof -
  let ?c = "\<lparr>Dialer = None, Host = [], Path = ''ws'', ServerName = [], TLS = True,
             Insecure = False\<rparr>"
  let ?r = "\<lparr>pConnectDialConfig =
            \<lparr>Dialer = Some defaultDialer, Host = ''example.com'', Path = ''/ws'',
             ServerName = ''example.com'', TLS = True, Insecure = False\<rparr>,
          splitAddr = ''example.com'', splitPort = ''9000''\<rparr>"
  have g: "generateDialConfig ''example.com:9000'' ?c = Inr ?r"
    by (rule generateDialConfig_9000)
  have n: "\<not> HasPrefix ''ws'' ''/''"
    by (simp add: HasPrefix_def)
  have y: "HasPrefix ''/ws'' ''/''"
    by (simp add: HasPrefix_def)
  from ensureLeadingSlash_begins_with_slash [of "''ws''" "''example.com:9000''" ?c ?r] g
  have 1: "HasPrefix (Path (pConnectDialConfig ?r)) ''/''"
    and 2: "ensureLeadingSlash ''ws'' = ''/'' @ ''ws''"
    using n by blast+
  from ensureLeadingSlash_begins_with_slash [of "''/ws''" "''example.com:9000''" ?c ?r] y
  have 3: "ensureLeadingSlash ''/ws'' = ''/ws''"
    by blast
  from 1 have 4: "HasPrefix ''/ws'' ''/''" by simp
  show ?thesis using g 2 3 4 n by blast
qed

subsection \<open>Addresses without a port\<close>

lemma IndexByteString_notin: "c \<notin> set s \<Longrightarrow> IndexByteString s c = -1"
  by (induction s) (auto simp: Let_def)

lemma SplitHostPort_no_colon:
  "CHR '':'' \<notin> set addr \<Longrightarrow> SplitHostPort addr = Inl (AddrError missingPort addr)"
  by (simp add: SplitHostPort_def LastIndexByteString_def IndexByteString_notin Let_def)

text \<open>
  The message of the error that \<open>net.SplitHostPort\<close> returns for an address without a colon
  carries the address in front, so it equals \<open>missing port in address\<close> only for the empty
  address: for every other address without a port \<open>parseAddrAndPort\<close> takes the error
  branch and never reaches \<open>defaultPort\<close>.
\<close>

lemma parseAddrAndPort_without_port:
  assumes "CHR '':'' \<notin> set addr" and "addr \<noteq> []"
  shows "parseAddrAndPort addr tls =
           Inl (fmt_Errorf ''failed to split host and port: ''
                  (AddrError ''missing port in address'' addr))"
  using assms by (simp add: parseAddrAndPort_def SplitHostPort_no_colon missingPort_def)

lemma parseAddrAndPort_empty: "parseAddrAndPort [] tls = Inr ([], defaultPort tls)"
  by (simp add: parseAddrAndPort_def SplitHostPort_no_colon missingPort_def)

text \<open>
  C2. The claim: an address without an explicit port, such as \<open>example.com\<close>, parses and
  gets port 80 without TLS and 443 with TLS. The code at that input: \<open>parseAddrAndPort\<close>
  returns the error \<open>failed to split host and port: address example.com: missing port in
  address\<close>, with and without TLS.
\<close>

theorem parseAddrAndPort_example_com_fails:
  "parseAddrAndPort ''example.com'' False =
     Inl (fmt_Errorf ''failed to split host and port: ''
            (AddrError ''missing port in address'' ''example.com''))
   \<and> parseAddrAndPort ''example.com'' True =
     Inl (fmt_Errorf ''failed to split host and port: ''
            (AddrError ''missing port in address'' ''example.com''))
   \<and> Error (fmt_Errorf ''failed to split host and port: ''
            (AddrError ''missing port in address'' ''example.com'')) =
     ''failed to split host and port: address example.com: missing port in address''"
proof -
  have c: "CHR '':'' \<notin> set ''example.com''" by simp
  have n: "''example.com'' \<noteq> []" by simp
  have e: "Error (fmt_Errorf ''failed to split host and port: ''
            (AddrError ''missing port in address'' ''example.com'')) =
     ''failed to split host and port: address example.com: missing port in address''"
    by simp
  show ?thesis
    using parseAddrAndPort_without_port [OF c n] e by blast
qed

subsection \<open>Addresses with a port\<close>

lemma IndexByteString_first:
  "c \<notin> set xs \<Longrightarrow> IndexByteString (xs @ c # ys) c = int (length xs)"
  by (induction xs) (auto simp: Let_def)

lemma LastIndexByteString_last:
  assumes "c \<notin> set ys"
  shows "LastIndexByteString (xs @ c # ys) c = int (length xs)"
proof -
  have "IndexByteString (rev ys @ c # rev xs) c = int (length ys)"
    using assms IndexByteString_first [of c "rev ys" "rev xs"] by simp
  then show ?thesis
    by (simp add: LastIndexByteString_def)
qed

lemma SplitHostPort_host_port:
  assumes "set host \<inter> {CHR '':'', CHR ''['', CHR '']''} = {}"
    and "set port \<inter> {CHR '':'', CHR ''['', CHR '']''} = {}"
  shows "SplitHostPort (host @ CHR '':'' # port) = Inr (host, port)"
proof -
  let ?s = "host @ CHR '':'' # port"
  have i: "LastIndexByteString ?s (CHR '':'') = int (length host)"
    using assms by (intro LastIndexByteString_last) auto
  have h: "hd ?s \<noteq> CHR ''[''"
    using assms by (cases host) auto
  have c: "IndexByteString host (CHR '':'') = -1"
    using assms by (intro IndexByteString_notin) auto
  have l: "IndexByteString ?s (CHR ''['') = -1"
    using assms by (intro IndexByteString_notin) auto
  have r: "IndexByteString ?s (CHR '']'') = -1"
    using assms by (intro IndexByteString_notin) auto
  have n: "nat (int (length host) + 1) = Suc (length host)"
    by linarith
  show ?thesis
    using i h c l r by (simp add: SplitHostPort_def SplitHostPort_rest_def Let_def n)
qed

text \<open>
  An address \<open>host:port\<close> (neither part holding a colon or a bracket) parses to that host
  and that port, whatever the TLS setting.
\<close>

lemma parseAddrAndPort_explicit_port:
  assumes "set host \<inter> {CHR '':'', CHR ''['', CHR '']''} = {}"
    and "set port \<inter> {CHR '':'', CHR ''['', CHR '']''} = {}"
  shows "parseAddrAndPort (host @ CHR '':'' # port) tls = Inr (host, port)"
  using SplitHostPort_host_port [OF assms] by (simp add: parseAddrAndPort_def)

subsection \<open>Host and server name\<close>

lemma generateDialConfig_Inr:
  assumes "generateDialConfig addr cfg = Inr r"
  shows "parseAddrAndPort addr (TLS cfg) = Inr (splitAddr r, splitPort r)"
    and "Host (pConnectDialConfig r) =
           (if Host cfg \<noteq> [] then Host cfg
            else if ServerName cfg \<noteq> [] then ServerName cfg else splitAddr r)"
    and "ServerName (pConnectDialConfig r) =
           (if ServerName cfg \<noteq> [] then ServerName cfg else Host (pConnectDialConfig r))"
    and "TLS (pConnectDialConfig r) = TLS cfg"
    and "Insecure (pConnectDialConfig r) = Insecure cfg"
  using assms
  by (auto simp: generateDialConfig_def Let_def split: sum.splits if_splits)

lemma connect_tls_Inr:
  assumes "connect net ctx r = Return (Inr ws, closed)" and "TLS (pConnectDialConfig r)"
  shows "\<exists>wsConfig dialConn.
           HandshakeContext net
             (tls_Client dialConn (connect_tlsConfig (pConnectDialConfig r))) ctx = None
         \<and> websocket_NewClient net wsConfig
             (tls_Client dialConn (connect_tlsConfig (pConnectDialConfig r))) = Inr ws"
  using assms
  by (auto simp: connect_def Let_def split: sum.splits outcome.splits option.splits)

text \<open>
  C6, as the claim states it, fails: with \<open>Host\<close> and \<open>ServerName\<close> empty and the dial
  address \<open>example.com:9000\<close>, both are set to \<open>example.com\<close>, which is not the dial
  address.
\<close>

theorem generateDialConfig_host_is_not_dial_address:
  "generateDialConfig ''example.com:9000''
     \<lparr>Dialer = None, Host = [], Path = ''ws'', ServerName = [], TLS = True, Insecure = False\<rparr>
   = Inr \<lparr>pConnectDialConfig =
            \<lparr>Dialer = Some defaultDialer, Host = ''example.com'', Path = ''/ws'',
             ServerName = ''example.com'', TLS = True, Insecure = False\<rparr>,
          splitAddr = ''example.com'', splitPort = ''9000''\<rparr>
   \<and> ''example.com'' \<noteq> ''example.com:9000''"
proof -
  have "''example.com'' \<noteq> ''example.com:9000''" by simp
  then show ?thesis using generateDialConfig_9000 by blast
qed

text \<open>
  C6, amended. Whenever \<open>generateDialConfig\<close> succeeds, the address it dials is the host
  part that \<open>parseAddrAndPort\<close> returns for the dial address (the address without its
  port, see \<open>parseAddrAndPort_explicit_port\<close>). With \<open>Host\<close> and \<open>ServerName\<close> both
  empty, both are set to that host part. With \<open>ServerName\<close> empty, the TLS configuration
  that \<open>connect\<close> builds names the host value as server name; and with TLS enabled every
  connection that \<open>connect\<close> returns runs over a TLS client whose handshake was made
  with that configuration.
\<close>

theorem generateDialConfig_defaults_host_and_server_name:
  assumes "generateDialConfig addr cfg = Inr r"
  shows "parseAddrAndPort addr (TLS cfg) = Inr (splitAddr r, splitPort r)
     \<and> (Host cfg = [] \<and> ServerName cfg = [] \<longrightarrow>
           Host (pConnectDialConfig r) = splitAddr r
           \<and> ServerName (pConnectDialConfig r) = splitAddr r)
     \<and> (ServerName cfg = [] \<longrightarrow>
           connect_tlsConfig (pConnectDialConfig r) =
             \<lparr>InsecureSkipVerify = Insecure cfg,
              tls_ServerName = Host (pConnectDialConfig r)\<rparr>)
     \<and> (TLS cfg \<and> ServerName cfg = [] \<and> connect net ctx r = Return (Inr ws, closed) \<longrightarrow>
           (\<exists>wsConfig dialConn.
              HandshakeContext net
                (tls_Client dialConn
                   \<lparr>InsecureSkipVerify = Insecure cfg,
                    tls_ServerName = Host (pConnectDialConfig r)\<rparr>) ctx = None
            \<and> websocket_NewClient net wsConfig
                (tls_Client dialConn
                   \<lparr>InsecureSkipVerify = Insecure cfg,
                    tls_ServerName = Host (pConnectDialConfig r)\<rparr>) = Inr ws))"
proof -
  note g = generateDialConfig_Inr [OF assms]
  have a: "Host cfg = [] \<and> ServerName cfg = [] \<longrightarrow>
           Host (pConnectDialConfig r) = splitAddr r
           \<and> ServerName (pConnectDialConfig r) = splitAddr r"
    using g(2) g(3) by simp
  have b: "ServerName cfg = [] \<longrightarrow>
           connect_tlsConfig (pConnectDialConfig r) =
             \<lparr>InsecureSkipVerify = Insecure cfg,
              tls_ServerName = Host (pConnectDialConfig r)\<rparr>"
    using g(3) g(5) by (simp add: connect_tlsConfig_def)
  have c: "TLS cfg \<and> ServerName cfg = [] \<and> connect net ctx r = Return (Inr ws, closed) \<longrightarrow>
           (\<exists>wsConfig dialConn.
              HandshakeContext net
                (tls_Client dialConn
                   \<lparr>InsecureSkipVerify = Insecure cfg,
                    tls_ServerName = Host (pConnectDialConfig r)\<rparr>) ctx = None
            \<and> websocket_NewClient net wsConfig
                (tls_Client dialConn
                   \<lparr>InsecureSkipVerify = Insecure cfg,
                    tls_ServerName = Host (pConnectDialConfig r)\<rparr>) = Inr ws)"
  proof (intro impI, elim conjE)
    assume t: "TLS cfg" and s: "ServerName cfg = []"
      and k: "connect net ctx r = Return (Inr ws, closed)"
    from t g(4) have "TLS (pConnectDialConfig r)" by simp
    from connect_tls_Inr [OF k this] b s show "\<exists>wsConfig dialConn.
              HandshakeContext net
                (tls_Client dialConn
                   \<lparr>InsecureSkipVerify = Insecure cfg,
                    tls_ServerName = Host (pConnectDialConfig r)\<rparr>) ctx = None
            \<and> websocket_NewClient net wsConfig
                (tls_Client dialConn
                   \<lparr>InsecureSkipVerify = Insecure cfg,
                    tls_ServerName = Host (pConnectDialConfig r)\<rparr>) = Inr ws"
      by simp
  qed
  show ?thesis using g(1) a b c by blast
qed

lemma connect_example:
  "connect example_network Background
     \<lparr>pConnectDialConfig =
        \<lparr>Dialer = Some defaultDialer, Host = ''example.com'', Path = ''/ws'',
         ServerName = ''example.com'', TLS = True, Insecure = False\<rparr>,
      splitAddr = ''example.com'', splitPort = ''9000''\<rparr>
   = Return (Inr \<lparr>ws_config =
                   \<lparr>Location = Some (example_URL ''wss://example.com/ws''),
                    Origin = Some (example_URL ''https://example.com/ws''),
                    Header = [''User-Agent'' \<mapsto>
                      [''Mozilla/5.0 (Windows NT 10.0; WOW64) AppleWebKit/537.36 (KHTML, like Gecko) Chrome/86.0.4240.198 Safari/537.36'']],
                    Version = ProtocolVersionHybi13, ws_Dialer = Some defaultDialer\<rparr>,
                 rwc = tls_Client (TCPConn 0)
                         \<lparr>InsecureSkipVerify = False, tls_ServerName = ''example.com''\<rparr>,
                 PayloadType = 1\<rparr>, [])"
  by (simp add: connect_def example_network_def createWebsocketConfig_def
      dialWithTimeout_def connect_tlsConfig_def setReqHeader_def)

theorem generateDialConfig_defaults_host_and_server_name_witness:
  "generateDialConfig ''example.com:9000''
     \<lparr>Dialer = None, Host = [], Path = ''ws'', ServerName = [], TLS = True, Insecure = False\<rparr>
   = Inr \<lparr>pConnectDialConfig =
            \<lparr>Dialer = Some defaultDialer, Host = ''example.com'', Path = ''/ws'',
             ServerName = ''example.com'', TLS = True, Insecure = False\<rparr>,
          splitAddr = ''example.com'', splitPort = ''9000''\<rparr>
   \<and> parseAddrAndPort ''example.com:9000'' True = Inr (''example.com'', ''9000'')
   \<and> connect_tlsConfig
         \<lparr>Dialer = Some defaultDialer, Host = ''example.com'', Path = ''/ws'',
          ServerName = ''example.com'', TLS = True, Insecure = False\<rparr>
       = \<lparr>InsecureSkipVerify = False, tls_ServerName = ''example.com''\<rparr>
   \<and> (\<exists>wsConfig dialConn.
          HandshakeContext example_network
            (tls_Client dialConn
               \<lparr>InsecureSkipVerify = False, tls_ServerName = ''example.com''\<rparr>)
            Background = None
        \<and> websocket_NewClient example_network wsConfig
            (tls_Client dialConn
               \<lparr>InsecureSkipVerify = False, tls_ServerName = ''example.com''\<rparr>)
          = Inr \<lparr>ws_config =
                   \<lparr>Location = Some (example_URL ''wss://example.com/ws''),
                    Origin = Some (example_URL ''https://example.com/ws''),
                    Header = [''User-Agent'' \<mapsto>
                      [''Mozilla/5.0 (Windows NT 10.0; WOW64) AppleWebKit/537.36 (KHTML, like Gecko) Chrome/86.0.4240.198 Safari/537.36'']],
                    Version = ProtocolVersionHybi13, ws_Dialer = Some defaultDialer\<rparr>,
                 rwc = tls_Client (TCPConn 0)
                         \<lparr>InsecureSkipVerify = False, tls_ServerName = ''example.com''\<rparr>,
                 PayloadType = 1\<rparr>)"
proof -
  let ?c = "\<lparr>Dialer = None, Host = [], Path = ''ws'', ServerName = [], TLS = True,
             Insecure = False\<rparr>"
  let ?d = "\<lparr>Dialer = Some defaultDialer, Host = ''example.com'', Path = ''/ws'',
             ServerName = ''example.com'', TLS = True, Insecure = False\<rparr>"
  let ?r = "\<lparr>pConnectDialConfig = ?d, splitAddr = ''example.com'', splitPort = ''9000''\<rparr>"
  have g: "generateDialConfig ''example.com:9000'' ?c = Inr ?r"
    by (rule generateDialConfig_9000)
  have k: "TLS ?c \<and> ServerName ?c = [] \<and> Host ?c = []"
    by simp
  have p: "pConnectDialConfig ?r = ?d" "splitAddr ?r = ''example.com''"
    "splitPort ?r = ''9000''" "Insecure ?c = False" "Host ?d = ''example.com''"
    by simp_all
  note t = generateDialConfig_defaults_host_and_server_name
    [OF g, of example_network Background _ "[]"]
  from t k have 1: "parseAddrAndPort ''example.com:9000'' True = Inr (''example.com'', ''9000'')"
    unfolding p by simp
  from t k have 2: "connect_tlsConfig ?d =
      \<lparr>InsecureSkipVerify = False, tls_ServerName = ''example.com''\<rparr>"
    unfolding p by blast
  from t k connect_example show ?thesis
    unfolding p using g 1 2 by blast
qed

subsection \<open>The dialer's base configuration\<close>

lemma apply_options_foldl:
  "c < length h \<Longrightarrow> apply_options opts c h = h[c := foldl (\<lambda>v opt. opt v) (h ! c) opts]"
  by (induction opts arbitrary: h) (simp_all add: call_option_def)

lemma Clone_value:
  "\<lparr>ConnectAddrConfig = Clone_ConnectAddrConfig (ConnectAddrConfig v),
    ConnectDialConfig = Clone_ConnectDialConfig (ConnectDialConfig v)\<rparr> = v"
proof -
  have "\<lparr>Addr = Addr (ConnectAddrConfig v)\<rparr> = ConnectAddrConfig v"
    by (cases "ConnectAddrConfig v") simp
  then show ?thesis
    by (cases v) (simp add: Clone_ConnectAddrConfig_def Clone_ConnectDialConfig_def)
qed

text \<open>
  A dial on an existing dialer allocates one new object, the clone with the options
  applied, and connects with it.
\<close>

lemma DialContext_eq:
  assumes "wc < length h"
  shows "DialContext wc net ctx options h =
           (ConnectWithConfig net ctx (foldl (\<lambda>v opt. opt v) (h ! wc) options),
            h @ [foldl (\<lambda>v opt. opt v) (h ! wc) options])"
  using assms
  by (simp add: DialContext_def Clone_ConnectConfig_def new_object_def apply_options_foldl
      Clone_value nth_append)

text \<open>
  C7. For a dialer \<open>wc\<close> (a pointer to an object of the store) and every option list:
  \<^item> \<open>Clone\<close> allocates a new object, a copy of the dialer's configuration;
  \<^item> \<open>DialContext\<close> adds one object to the store, which is that copy with the per-call
    options applied to it in their order, and connects with exactly this configuration;
  \<^item> after \<open>DialContext\<close> the dialer's configuration is what it was, and so is every
    other object that existed before the call;
  \<^item> the result of a later call on the same dialer is the result it would have had
    without the earlier call;
  \<^item> and the same holds of \<open>Dial\<close>, with the background context.
\<close>

theorem DialContext_leaves_base_configuration:
  assumes "wc < length h"
  shows "Clone_ConnectConfig wc h = (length h, h @ [h ! wc])
     \<and> snd (DialContext wc net ctx options h)
         = h @ [foldl (\<lambda>cfg option. option cfg) (h ! wc) options]
     \<and> snd (DialContext wc net ctx options h)
         = apply_options options (length h) (h @ [h ! wc])
     \<and> fst (DialContext wc net ctx options h)
         = ConnectWithConfig net ctx (foldl (\<lambda>cfg option. option cfg) (h ! wc) options)
     \<and> snd (DialContext wc net ctx options h) ! wc = h ! wc
     \<and> take (length h) (snd (DialContext wc net ctx options h)) = h
     \<and> fst (DialContext wc net ctx' options' (snd (DialContext wc net ctx options h)))
         = fst (DialContext wc net ctx' options' h)
     \<and> snd (Dial wc net options h)
         = h @ [foldl (\<lambda>cfg option. option cfg) (h ! wc) options]
     \<and> fst (Dial wc net options h)
         = ConnectWithConfig net Background
             (foldl (\<lambda>cfg option. option cfg) (h ! wc) options)
     \<and> snd (Dial wc net options h) ! wc = h ! wc
     \<and> take (length h) (snd (Dial wc net options h)) = h
     \<and> fst (Dial wc net options' (snd (Dial wc net options h))) = fst (Dial wc net options' h)"
proof -
  let ?h' = "snd (DialContext wc net ctx options h)"
  let ?new = "foldl (\<lambda>cfg option. option cfg) (h ! wc) options"
  have cl: "Clone_ConnectConfig wc h = (length h, h @ [h ! wc])"
    by (simp add: Clone_ConnectConfig_def new_object_def Clone_value)
  have a: "?h' = h @ [?new]"
    using assms by (simp add: DialContext_eq)
  have ap: "apply_options options (length h) (h @ [h ! wc]) = h @ [?new]"
    by (simp add: apply_options_foldl)
  have a': "?h' = apply_options options (length h) (h @ [h ! wc])"
    using a ap by simp
  have r: "fst (DialContext wc net ctx options h) = ConnectWithConfig net ctx ?new"
    using assms by (simp add: DialContext_eq)
  have b: "?h' ! wc = h ! wc"
    using assms a by (simp add: nth_append)
  have c: "wc < length ?h'"
    using assms a by simp
  have d: "fst (DialContext wc net ctx' options' ?h') = fst (DialContext wc net ctx' options' h)"
    using assms b c by (simp add: DialContext_eq)
  have e: "take (length h) ?h' = h"
    using a by simp
  have f: "Dial wc net options h = DialContext wc net Background options h" for options h
    by (simp add: Dial_def)
  have ga: "snd (DialContext wc net Background options h) = h @ [?new]"
    using assms by (simp add: DialContext_eq)
  have gr: "fst (DialContext wc net Background options h)
              = ConnectWithConfig net Background ?new"
    using assms by (simp add: DialContext_eq)
  have g: "snd (DialContext wc net Background options h) ! wc = h ! wc"
    using assms by (simp add: DialContext_eq nth_append)
  have i: "fst (DialContext wc net Background options'
                  (snd (DialContext wc net Background options h)))
         = fst (DialContext wc net Background options' h)"
    using assms by (simp add: DialContext_eq nth_append)
  have j: "take (length h) (snd (DialContext wc net Background options h)) = h"
    using assms by (simp add: DialContext_eq)
  show ?thesis
    unfolding f
    using cl a a' r b e d ga gr g j i by (intro conjI)
qed

theorem DialContext_leaves_base_configuration_witness:
  "NewDialer [WithAddr ''example.com:9000''] [] =
     (0, [set_Addr ''example.com:9000'' zero_ConnectConfig])
   \<and> (0::nat) < length [set_Addr ''example.com:9000'' zero_ConnectConfig]
   \<and> snd (DialContext 0 example_network Background [WithHost ''other'', WithPath ''p'']
            [set_Addr ''example.com:9000'' zero_ConnectConfig])
       = [set_Addr ''example.com:9000'' zero_ConnectConfig,
          WithPath ''p'' (WithHost ''other'' (set_Addr ''example.com:9000'' zero_ConnectConfig))]
   \<and> fst (DialContext 0 example_network Background [WithHost ''other'', WithPath ''p'']
            [set_Addr ''example.com:9000'' zero_ConnectConfig])
       = ConnectWithConfig example_network Background
           (WithPath ''p'' (WithHost ''other'' (set_Addr ''example.com:9000'' zero_ConnectConfig)))
   \<and> snd (DialContext 0 example_network Background [WithHost ''other'', WithPath ''p'']
            [set_Addr ''example.com:9000'' zero_ConnectConfig]) ! 0
       = set_Addr ''example.com:9000'' zero_ConnectConfig
   \<and> fst (DialContext 0 example_network Background []
            (snd (DialContext 0 example_network Background [WithHost ''other'', WithPath ''p'']
                    [set_Addr ''example.com:9000'' zero_ConnectConfig])))
       = fst (DialContext 0 example_network Background []
                [set_Addr ''example.com:9000'' zero_ConnectConfig])"
proof -
  let ?base = "set_Addr ''example.com:9000'' zero_ConnectConfig"
  let ?opts = "[WithHost ''other'', WithPath ''p'']"
  have n: "NewDialer [WithAddr ''example.com:9000''] [] = (0, [?base])"
    by (simp add: NewDialer_def new_object_def call_option_def WithAddr_def)
  have l: "(0::nat) < length [?base]"
    by simp
  note t = DialContext_leaves_base_configuration
    [OF l, of example_network Background ?opts Background "[]"]
  from t [THEN conjunct2, THEN conjunct1]
  have s: "snd (DialContext 0 example_network Background ?opts [?base])
             = [?base, WithPath ''p'' (WithHost ''other'' ?base)]"
    by simp
  from t [THEN conjunct2, THEN conjunct2, THEN conjunct2, THEN conjunct1]
  have r: "fst (DialContext 0 example_network Background ?opts [?base])
             = ConnectWithConfig example_network Background
                 (WithPath ''p'' (WithHost ''other'' ?base))"
    by simp
  from t [THEN conjunct2, THEN conjunct2, THEN conjunct2, THEN conjunct2, THEN conjunct1]
  have b: "snd (DialContext 0 example_network Background ?opts [?base]) ! 0 = ?base"
    by simp
  from t [THEN conjunct2, THEN conjunct2, THEN conjunct2, THEN conjunct2, THEN conjunct2,
      THEN conjunct2, THEN conjunct1]
  have d: "fst (DialContext 0 example_network Background []
            (snd (DialContext 0 example_network Background ?opts [?base])))
       = fst (DialContext 0 example_network Background [] [?base])"
    by simp
  show ?thesis
    using n l s r b d by (intro conjI)
qed

text \<open>
  C10. \<open>DialTCP\<close> returns what \<open>Dial\<close> returns and \<open>DialContextTCP\<close> what \<open>DialContext\<close>
  returns, for every dialer, context, option list, network and store: the same websocket
  dial, and the same effect on the store.
\<close>

theorem DialTCP_is_Dial:
  "DialTCP wc net options h = Dial wc net options h
   \<and> DialContextTCP wc net ctx options h = DialContext wc net ctx options h
   \<and> DialTCP wc net options h = DialContext wc net Background options h"
  by (simp add: DialTCP_def DialContextTCP_def Dial_def)

section \<open>Properties of the server lifecycle\<close>

lemma closeOnListened_fires:
  assumes "onListenCloseOnce ps = is_closed (onListened ps)"
  shows "closeOnListened ps =
           (Return (), ps\<lparr>onListened := \<lparr>is_closed = True\<rparr>, onListenCloseOnce := True\<rparr>)"
  using assms
  by (cases ps; cases "onListened ps") (auto simp: closeOnListened_def close_chan_def)

text \<open>
  The "listening" signal is closed at most once: after \<open>closeOnListened\<close> the channel is
  closed and the Once has fired, and a further call changes nothing and does not panic.
\<close>

lemma closeOnListened_again:
  assumes "onListenCloseOnce ps = is_closed (onListened ps)"
  shows "closeOnListened (snd (closeOnListened ps)) = (Return (), snd (closeOnListened ps))"
proof -
  have "onListenCloseOnce (snd (closeOnListened ps))"
    using assms by (simp add: closeOnListened_fires)
  then show ?thesis
    by (simp add: closeOnListened_def)
qed

text \<open>
  The Once has fired exactly when \<open>onListened\<close> is closed: so it is in the server that
  \<open>NewServer\<close> makes, and every method that returns or panics leaves it so.
\<close>

lemma NewServer_signals:
  "onListenCloseOnce (NewServer addr pattern handler []) =
     is_closed (onListened (NewServer addr pattern handler []))"
  "\<not> is_closed (shutdowned (NewServer addr pattern handler []))"
  "server (NewServer addr pattern handler []) = None"
  by (simp_all add: NewServer_def)

lemma closeOnListened_signals:
  assumes "onListenCloseOnce ps = is_closed (onListened ps)"
  shows "onListenCloseOnce (snd (closeOnListened ps)) =
           is_closed (onListened (snd (closeOnListened ps)))"
  using assms by (simp add: closeOnListened_fires)

lemma Shutdown_signals:
  assumes "onListenCloseOnce ps = is_closed (onListened ps)"
  shows "onListenCloseOnce (snd (Shutdown env ctx ps)) =
           is_closed (onListened (snd (Shutdown env ctx ps)))"
  using assms by (simp add: Shutdown_def closeOnListened_fires split: option.splits)

lemma Serve_signals:
  assumes "onListenCloseOnce ps = is_closed (onListened ps)"
    and "Serve env ps = Some (r, ps')"
  shows "onListenCloseOnce ps' = is_closed (onListened ps')"
proof (cases "get_Server env ps")
  case (Panic msg)
  then show ?thesis
    using assms by (simp add: Serve_def)
next
  case (Return sp)
  obtain srv ps1 where sp: "sp = (srv, ps1)" by (cases sp)
  have i1: "onListenCloseOnce ps1 = is_closed (onListened ps1)"
    using Return sp assms(1)
    by (auto simp: get_Server_def Let_def split: option.splits outcome.splits)
  obtain res ps2 where l: "listenAndServe env ps1 srv = Some (res, ps2)"
    using assms(2) Return sp by (auto simp: Serve_def split: option.splits)
  have i2: "onListenCloseOnce ps2 = is_closed (onListened ps2)"
    using l i1
    by (auto simp: listenAndServe_def Let_def closeOnListened_fires
        split: sum.splits option.splits)
  obtain r1 ps3 where c: "(case close_chan (shutdowned ps2) of
                       Panic msg \<Rightarrow> (Panic msg, ps2)
                     | Return c \<Rightarrow> (Return (), ps2\<lparr>shutdowned := c\<rparr>)) = (r1, ps3)"
    by (metis prod.exhaust)
  have i3: "onListenCloseOnce ps3 = is_closed (onListened ps3)"
    using c i2 by (auto split: outcome.splits)
  have "ps' = snd (closeOnListened ps3)"
    using assms(2) Return sp l c by (auto simp: Serve_def split: prod.splits)
  then show ?thesis
    using closeOnListened_signals [OF i3] by simp
qed

text \<open>
  \<open>Server()\<close> returns when the HTTP server is built already, or the mux takes the path;
  what it returns is the server with the HTTP server assigned. Otherwise it panics.
\<close>

lemma get_Server_Return:
  assumes "server ps \<noteq> None \<or> mux_Handle env (path ps) = Return ()"
  shows "\<exists>srv. get_Server env ps = Return (srv, ps\<lparr>server := Some srv\<rparr>)"
proof (cases "server ps")
  case None
  then show ?thesis
    using assms by (simp add: get_Server_def Let_def)
next
  case (Some srv)
  then have "ps\<lparr>server := Some srv\<rparr> = ps"
    by (cases ps) simp
  then show ?thesis
    using Some by (simp add: get_Server_def)
qed

lemma get_Server_Panic:
  assumes "server ps = None" and "mux_Handle env (path ps) = Panic msg"
  shows "get_Server env ps = Panic msg"
  using assms by (simp add: get_Server_def)

lemma mux_Handle_empty: "mux_Handle env [] = Panic ''http: invalid pattern''"
  by (simp add: mux_Handle_def)

text \<open>
  \<open>Serve\<close> on a failed bind, when \<open>Server()\<close> returns, in every state in which the Once
  has fired exactly when \<open>onListened\<close> is closed: the error is recorded and both channels
  are closed; \<open>Serve\<close> returns the error when \<open>shutdowned\<close> was still open, and panics
  in the deferred \<open>close(ps.shutdowned)\<close> when it was closed already.
\<close>

lemma Serve_bind_failure_any:
  assumes "net_Listen env ''tcp'' (if listenAddr ps = [] then '':http'' else listenAddr ps)
             = Inl err"
    and "get_Server env ps = Return (srv, ps\<lparr>server := Some srv\<rparr>)"
    and "onListenCloseOnce ps = is_closed (onListened ps)"
  shows "Serve env ps =
     Some (if is_closed (shutdowned ps) then Panic ''close of closed channel'' else Return err,
           ps\<lparr>server := Some srv, listenErr := Some err, shutdowned := \<lparr>is_closed = True\<rparr>,
              onListened := \<lparr>is_closed = True\<rparr>, onListenCloseOnce := True\<rparr>)"
proof -
  let ?ps1 = "ps\<lparr>server := Some srv\<rparr>"
  have l: "listenAndServe env ?ps1 srv = Some (Return err, ?ps1\<lparr>listenErr := Some err\<rparr>)"
    using assms(1) by (auto simp: listenAndServe_def split: if_splits)
  let ?ps2 = "?ps1\<lparr>listenErr := Some err\<rparr>"
  show ?thesis
  proof (cases "is_closed (shutdowned ps)")
    case True
    have c: "closeOnListened ?ps2 =
      (Return (), ?ps2\<lparr>onListened := \<lparr>is_closed = True\<rparr>, onListenCloseOnce := True\<rparr>)"
      using assms(3) by (intro closeOnListened_fires) simp
    have "shutdowned ps = \<lparr>is_closed = True\<rparr>"
      using True by (cases "shutdowned ps") simp
    then show ?thesis
      using True assms(2) l c by (simp add: Serve_def close_chan_def)
  next
    case False
    let ?ps3 = "?ps2\<lparr>shutdowned := (shutdowned ps)\<lparr>is_closed := True\<rparr>\<rparr>"
    have c: "closeOnListened ?ps3 =
      (Return (), ?ps3\<lparr>onListened := \<lparr>is_closed = True\<rparr>, onListenCloseOnce := True\<rparr>)"
      using assms(3) by (intro closeOnListened_fires) simp
    have "(shutdowned ps)\<lparr>is_closed := True\<rparr> = \<lparr>is_closed = True\<rparr>"
      by (cases "shutdowned ps") simp
    then show ?thesis
      using False assms(2) l c by (simp add: Serve_def close_chan_def)
  qed
qed

text \<open>When \<open>Server()\<close> panics, so does \<open>Serve\<close>, and the server is as it was.\<close>

lemma Serve_Server_panics:
  assumes "get_Server env ps = Panic msg"
  shows "Serve env ps = Some (Panic msg, ps)"
  using assms by (simp add: Serve_def)

lemma example_Server_fresh:
  "listenAddr example_Server = '':8080''"
  "onListenCloseOnce example_Server = is_closed (onListened example_Server)"
  "\<not> is_closed (shutdowned example_Server)"
  by (simp_all add: example_Server_def NewServer_def)

lemma get_Server_example:
  "get_Server busy_host example_Server =
     Return (example_http_Server, example_Server\<lparr>server := Some example_http_Server\<rparr>)"
  by (simp add: get_Server_def example_Server_def NewServer_def mux_Handle_def busy_host_def
      example_http_Server_def Let_def)

lemma busy_host_Listen:
  "net_Listen busy_host ''tcp'' (if listenAddr ps = [] then '':http'' else listenAddr ps)
   = Inl (errors_New ''bind: address already in use'')"
  by (simp add: busy_host_def)

text \<open>
  C3, as the claim states it, fails. The bind fails for each of these servers, on a host
  on which every bind fails.
  \<^item> A server made with the empty path: \<open>Server()\<close> panics in \<open>mux.Handle\<close> before
    \<open>Serve\<close> has deferred anything, so \<open>Serve\<close> panics, no error is recorded and
    \<open>onListened\<close> stays open.
  \<^item> A server on which \<open>Serve\<close> has returned before, so that \<open>shutdowned\<close> is closed:
    the error is recorded, but \<open>Serve\<close> does not return it: it panics in the deferred
    \<open>close(ps.shutdowned)\<close>.
\<close>

theorem Serve_bind_failure_without_return:
  "Serve busy_host pathless_Server = Some (Panic ''http: invalid pattern'', pathless_Server)
   \<and> ListenErr pathless_Server = None
   \<and> \<not> is_closed (OnListened pathless_Server)
   \<and> Serve busy_host
        (example_Server\<lparr>server := Some example_http_Server,
           listenErr := Some (errors_New ''bind: address already in use''),
           shutdowned := \<lparr>is_closed = True\<rparr>, onListened := \<lparr>is_closed = True\<rparr>,
           onListenCloseOnce := True\<rparr>)
       = Some (Panic ''close of closed channel'',
           example_Server\<lparr>server := Some example_http_Server,
             listenErr := Some (errors_New ''bind: address already in use''),
             shutdowned := \<lparr>is_closed = True\<rparr>, onListened := \<lparr>is_closed = True\<rparr>,
             onListenCloseOnce := True\<rparr>)"
proof -
  let ?e = "errors_New ''bind: address already in use''"
  have g: "get_Server busy_host pathless_Server = Panic ''http: invalid pattern''"
    by (simp add: get_Server_def pathless_Server_def NewServer_def mux_Handle_def)
  have 1: "Serve busy_host pathless_Server
             = Some (Panic ''http: invalid pattern'', pathless_Server)"
    using g by (rule Serve_Server_panics)
  have 2: "ListenErr pathless_Server = None"
    by (simp add: ListenErr_def pathless_Server_def NewServer_def)
  have 3: "\<not> is_closed (OnListened pathless_Server)"
    by (simp add: OnListened_def pathless_Server_def NewServer_def)
  let ?ps1 = "example_Server\<lparr>server := Some example_http_Server,
           listenErr := Some ?e,
           shutdowned := \<lparr>is_closed = True\<rparr>, onListened := \<lparr>is_closed = True\<rparr>,
           onListenCloseOnce := True\<rparr>"
  have g1: "get_Server busy_host ?ps1 = Return (example_http_Server, ?ps1)"
    by (simp add: get_Server_def)
  have 4: "Serve busy_host ?ps1 = Some (Panic ''close of closed channel'', ?ps1)"
    using Serve_bind_failure_any [of busy_host ?ps1 ?e example_http_Server, OF busy_host_Listen]
      g1 by simp
  show ?thesis
    using 1 2 3 4 by (intro conjI)
qed

text \<open>
  C3, amended. A server for which \<open>Server()\<close> returns (its HTTP server is built already,
  or the mux takes its path), on which \<open>Serve\<close> has not returned before (\<open>shutdowned\<close> is
  open), and whose Once has fired exactly when \<open>onListened\<close> is closed (as in the result
  of \<open>NewServer\<close> without options, and after every method): when the bind fails, \<open>Serve\<close>
  returns the bind error, \<open>ListenErr\<close> gives that error afterwards, and \<open>onListened\<close>
  is closed when \<open>Serve\<close> returns.
\<close>

theorem Serve_bind_failure:
  assumes "net_Listen env ''tcp'' (if listenAddr ps = [] then '':http'' else listenAddr ps)
             = Inl err"
    and "server ps \<noteq> None \<or> mux_Handle env (path ps) = Return ()"
    and "onListenCloseOnce ps = is_closed (onListened ps)"
    and "\<not> is_closed (shutdowned ps)"
  shows "\<exists>ps'. Serve env ps = Some (Return err, ps')
           \<and> ListenErr ps' = Some err
           \<and> is_closed (OnListened ps')
           \<and> is_closed (Shutdowned ps')"
proof -
  from get_Server_Return [OF assms(2)] obtain srv where
    g: "get_Server env ps = Return (srv, ps\<lparr>server := Some srv\<rparr>)"
    by blast
  show ?thesis
    using Serve_bind_failure_any [OF assms(1) g assms(3)] assms(4)
    by (simp add: ListenErr_def OnListened_def Shutdowned_def)
qed

theorem Serve_bind_failure_witness:
  "net_Listen busy_host ''tcp''
     (if listenAddr example_Server = [] then '':http'' else listenAddr example_Server)
   = Inl (errors_New ''bind: address already in use'')
   \<and> mux_Handle busy_host (path example_Server) = Return ()
   \<and> onListenCloseOnce example_Server = is_closed (onListened example_Server)
   \<and> \<not> is_closed (shutdowned example_Server)
   \<and> (\<exists>ps'. Serve busy_host example_Server
               = Some (Return (errors_New ''bind: address already in use''), ps')
            \<and> ListenErr ps' = Some (errors_New ''bind: address already in use'')
            \<and> is_closed (OnListened ps')
            \<and> is_closed (Shutdowned ps'))"
proof -
  have p: "mux_Handle busy_host (path example_Server) = Return ()"
    by (simp add: example_Server_def NewServer_def mux_Handle_def busy_host_def)
  then have "server example_Server \<noteq> None
      \<or> mux_Handle busy_host (path example_Server) = Return ()"
    by (rule disjI2)
  from Serve_bind_failure [OF busy_host_Listen this example_Server_fresh(2,3)]
    busy_host_Listen [of example_Server] p example_Server_fresh(2,3)
  show ?thesis
    by blast
qed

text \<open>
  C4. The claim: however often the signalling operations are invoked, each channel is
  closed once and no signalling call panics. The code: the shutdown signal of \<open>Serve\<close>
  is a plain deferred \<open>close(ps.shutdowned)\<close>, without the Once that guards
  \<open>onListened\<close>. On a server made by \<open>NewServer\<close> whose bind fails, the first \<open>Serve\<close>
  returns the bind error and leaves both channels closed; \<open>Serve\<close> called again on that
  server panics with \<open>close of closed channel\<close>.
\<close>

theorem Serve_twice_panics:
  "Serve busy_host example_Server =
     Some (Return (errors_New ''bind: address already in use''),
           example_Server
             \<lparr>server := Some example_http_Server,
              listenErr := Some (errors_New ''bind: address already in use''),
              shutdowned := \<lparr>is_closed = True\<rparr>, onListened := \<lparr>is_closed = True\<rparr>,
              onListenCloseOnce := True\<rparr>)
   \<and> Serve busy_host
         (example_Server
             \<lparr>server := Some example_http_Server,
              listenErr := Some (errors_New ''bind: address already in use''),
              shutdowned := \<lparr>is_closed = True\<rparr>, onListened := \<lparr>is_closed = True\<rparr>,
              onListenCloseOnce := True\<rparr>) =
     Some (Panic ''close of closed channel'',
           example_Server
             \<lparr>server := Some example_http_Server,
              listenErr := Some (errors_New ''bind: address already in use''),
              shutdowned := \<lparr>is_closed = True\<rparr>, onListened := \<lparr>is_closed = True\<rparr>,
              onListenCloseOnce := True\<rparr>)"
proof -
  let ?e = "errors_New ''bind: address already in use''"
  let ?ps1 = "example_Server
             \<lparr>server := Some example_http_Server, listenErr := Some ?e,
              shutdowned := \<lparr>is_closed = True\<rparr>, onListened := \<lparr>is_closed = True\<rparr>,
              onListenCloseOnce := True\<rparr>"
  have 1: "Serve busy_host example_Server = Some (Return ?e, ?ps1)"
    using Serve_bind_failure_any [OF busy_host_Listen get_Server_example
        example_Server_fresh(2)] example_Server_fresh(3)
    by simp
  have g1: "get_Server busy_host ?ps1 = Return (example_http_Server, ?ps1)"
    by (simp add: get_Server_def)
  have 2: "Serve busy_host ?ps1 = Some (Panic ''close of closed channel'', ?ps1)"
    using Serve_bind_failure_any [of busy_host ?ps1 ?e example_http_Server, OF busy_host_Listen]
      g1 by simp
  show ?thesis
    using 1 2 by (rule conjI)
qed

section \<open>Properties of the handler\<close>

subsection \<open>The buffer pool\<close>

lemma reslice_to_cap:
  "reslice b 0 (int (cap b)) = Return \<lparr>elems = elems b @ spare b, spare = []\<rparr>"
  by (simp add: reslice_def cap_def)

lemma len_make_bytes: "len (make_bytes n) = cap (make_bytes n)"
  by (simp add: len_def cap_def make_bytes_def)

lemma pools_full_initial: "pools_full initial_pools"
  by (simp add: pools_full_def pool_full_def initial_pools_def)

lemma pools_full_newBufferPool:
  "pools_full st \<Longrightarrow> pools_full (snd (newBufferPool n st))"
  by (simp add: pools_full_def pool_full_def newBufferPool_def)

lemma pools_full_NewHandler:
  "pools_full st \<Longrightarrow> pools_full (snd (NewHandler parse addr opts st))"
  using pools_full_newBufferPool
  by (simp add: NewHandler_def Let_def split: prod.splits) (metis snd_conv)

lemma putBuffer_Some:
  "putBuffer h (Some b) st =
     Return (st\<lparr>pool_at := (pool_at st)(bufferPool h :=
        (pool_at st (bufferPool h))\<lparr>pooled :=
           \<lparr>elems = elems b @ spare b, spare = []\<rparr> # pooled (pool_at st (bufferPool h))\<rparr>)\<rparr>)"
  by (simp add: putBuffer_def reslice_to_cap Pool_Put_def)

lemma pools_full_putBuffer_Some:
  assumes "pools_full st"
  shows "pools_full (st\<lparr>pool_at := (pool_at st)(bufferPool h :=
        (pool_at st (bufferPool h))\<lparr>pooled :=
           \<lparr>elems = elems b @ spare b, spare = []\<rparr> # pooled (pool_at st (bufferPool h))\<rparr>)\<rparr>)"
  using assms by (simp add: pools_full_def pool_full_def len_def cap_def)

lemma Pool_Get_full:
  assumes "pool_full pool"
  shows "len (fst (Pool_Get pool pick)) = cap (fst (Pool_Get pool pick))
       \<and> pool_full (snd (Pool_Get pool pick))"
proof (cases pick)
  case None
  with assms show ?thesis by (simp add: Pool_Get_def len_make_bytes)
next
  case (Some i)
  show ?thesis
  proof (cases "i < length (pooled pool)")
    case True
    have "set (take i (pooled pool) @ drop (Suc i) (pooled pool)) \<subseteq> set (pooled pool)"
      using set_take_subset set_drop_subset by fastforce
    with assms True Some show ?thesis
      by (auto simp: Pool_Get_def pool_full_def list_all_iff)
  next
    case False
    with assms Some show ?thesis by (simp add: Pool_Get_def len_make_bytes)
  qed
qed

lemma getBuffer_full:
  assumes "pools_full st"
  shows "len (fst (getBuffer h pick st)) = cap (fst (getBuffer h pick st))
       \<and> pools_full (snd (getBuffer h pick st))"
proof -
  have p: "pool_full (pool_at st (bufferPool h))"
    using assms by (simp add: pools_full_def)
  from Pool_Get_full [OF p, of pick] assms show ?thesis
    by (auto simp: getBuffer_def pools_full_def split: prod.splits)
qed

text \<open>
  C8. \<open>putBuffer\<close> puts every buffer it is handed into the handler's pool with its length
  set to its capacity, whatever its length was: the buffer put is the whole backing
  array, \<open>elems b @ spare b\<close>, with nothing to spare. So the pools stay full (every
  buffer they hold has its length equal to its capacity): they are full at the start,
  and \<open>NewHandler\<close>, \<open>putBuffer\<close> and \<open>getBuffer\<close> keep them full; and from full pools
  \<open>getBuffer\<close> returns a buffer whose length is its capacity, whether it comes out of the
  pool or is made new.
\<close>

theorem putBuffer_resets_length:
  "(\<exists>st'. putBuffer h (Some b) st = Return st'
       \<and> pooled (pool_at st' (bufferPool h)) =
           \<lparr>elems = elems b @ spare b, spare = []\<rparr> # pooled (pool_at st (bufferPool h))
       \<and> len \<lparr>elems = elems b @ spare b, spare = []\<rparr> = cap b
       \<and> cap \<lparr>elems = elems b @ spare b, spare = []\<rparr> = cap b
       \<and> (pools_full st \<longrightarrow> pools_full st'))
   \<and> putBuffer h None st = Return st
   \<and> pools_full initial_pools
   \<and> (pools_full st \<longrightarrow> pools_full (snd (NewHandler parse addr opts st)))
   \<and> (pools_full st \<longrightarrow>
        len (fst (getBuffer h pick st)) = cap (fst (getBuffer h pick st))
        \<and> pools_full (snd (getBuffer h pick st)))"
proof -
  let ?st' = "st\<lparr>pool_at := (pool_at st)(bufferPool h :=
        (pool_at st (bufferPool h))\<lparr>pooled :=
           \<lparr>elems = elems b @ spare b, spare = []\<rparr> # pooled (pool_at st (bufferPool h))\<rparr>)\<rparr>"
  have "putBuffer h (Some b) st = Return ?st'
       \<and> pooled (pool_at ?st' (bufferPool h)) =
           \<lparr>elems = elems b @ spare b, spare = []\<rparr> # pooled (pool_at st (bufferPool h))
       \<and> len \<lparr>elems = elems b @ spare b, spare = []\<rparr> = cap b
       \<and> cap \<lparr>elems = elems b @ spare b, spare = []\<rparr> = cap b
       \<and> (pools_full st \<longrightarrow> pools_full ?st')"
    using pools_full_putBuffer_Some [of st h b]
    by (simp add: putBuffer_Some len_def cap_def)
  then have a: "\<exists>st'. putBuffer h (Some b) st = Return st'
       \<and> pooled (pool_at st' (bufferPool h)) =
           \<lparr>elems = elems b @ spare b, spare = []\<rparr> # pooled (pool_at st (bufferPool h))
       \<and> len \<lparr>elems = elems b @ spare b, spare = []\<rparr> = cap b
       \<and> cap \<lparr>elems = elems b @ spare b, spare = []\<rparr> = cap b
       \<and> (pools_full st \<longrightarrow> pools_full st')"
    by (rule exI)
  have n: "putBuffer h None st = Return st"
    by (simp add: putBuffer_def)
  show ?thesis
    using a n pools_full_initial pools_full_NewHandler [of st parse addr opts]
      getBuffer_full [of st h pick]
    by blast
qed

theorem putBuffer_resets_length_witness:
  "len example_buffer = 2 \<and> cap example_buffer = 4
   \<and> pools_full initial_pools
   \<and> pools_full (snd (NewHandler example_parse ''127.0.0.1:22'' [WithHandlerBufferSize 4]
                         initial_pools))
   \<and> (\<exists>st'. putBuffer
               (fst (NewHandler example_parse ''127.0.0.1:22'' [WithHandlerBufferSize 4]
                       initial_pools))
               (Some example_buffer)
               (snd (NewHandler example_parse ''127.0.0.1:22'' [WithHandlerBufferSize 4]
                       initial_pools)) = Return st'
            \<and> pooled (pool_at st' (new_ptr 0)) = [\<lparr>elems = [1, 2, 0, 0], spare = []\<rparr>]
            \<and> pools_full st')
   \<and> len (fst (getBuffer
                  (fst (NewHandler example_parse ''127.0.0.1:22'' [WithHandlerBufferSize 4]
                          initial_pools))
                  None
                  (snd (NewHandler example_parse ''127.0.0.1:22'' [WithHandlerBufferSize 4]
                          initial_pools))))
       = cap (fst (getBuffer
                  (fst (NewHandler example_parse ''127.0.0.1:22'' [WithHandlerBufferSize 4]
                          initial_pools))
                  None
                  (snd (NewHandler example_parse ''127.0.0.1:22'' [WithHandlerBufferSize 4]
                          initial_pools))))"
proof -
  let ?h = "fst (NewHandler example_parse ''127.0.0.1:22'' [WithHandlerBufferSize 4]
                   initial_pools)"
  let ?st = "snd (NewHandler example_parse ''127.0.0.1:22'' [WithHandlerBufferSize 4]
                    initial_pools)"
  have l: "len example_buffer = 2" "cap example_buffer = 4"
    by (simp_all add: example_buffer_def len_def cap_def)
  have p: "bufferPool ?h = new_ptr 0"
    by (simp add: NewHandler_def newBufferPool_def WithHandlerBufferSize_def
        DefaultBufferSize_def initial_pools_def)
  have q: "pooled (pool_at ?st (new_ptr 0)) = []"
    by (simp add: NewHandler_def newBufferPool_def WithHandlerBufferSize_def
        DefaultBufferSize_def initial_pools_def)
  have e: "\<lparr>elems = elems example_buffer @ spare example_buffer, spare = []\<rparr>
             = \<lparr>elems = [1, 2, 0, 0], spare = []\<rparr>"
    by (simp add: example_buffer_def)
  note t = putBuffer_resets_length [where parse = example_parse]
  from t [of ?h example_buffer initial_pools "''127.0.0.1:22''" "[WithHandlerBufferSize 4]"]
  have i: "pools_full initial_pools" and f: "pools_full ?st"
    by blast+
  from t [of ?h example_buffer ?st] f
  have "\<exists>st'. putBuffer ?h (Some example_buffer) ?st = Return st'
       \<and> pooled (pool_at st' (bufferPool ?h)) =
           \<lparr>elems = elems example_buffer @ spare example_buffer, spare = []\<rparr>
             # pooled (pool_at ?st (bufferPool ?h))
       \<and> pools_full st'"
    by blast
  then have u: "\<exists>st'. putBuffer ?h (Some example_buffer) ?st = Return st'
            \<and> pooled (pool_at st' (new_ptr 0)) = [\<lparr>elems = [1, 2, 0, 0], spare = []\<rparr>]
            \<and> pools_full st'"
    unfolding p q e by blast
  from t [of ?h example_buffer ?st _ _ None] f
  have g: "len (fst (getBuffer ?h None ?st)) = cap (fst (getBuffer ?h None ?st))"
    by blast
  show ?thesis
    using l i f u g by blast
qed

subsection \<open>The origin check\<close>

lemma checkOrigin_snd:
  "snd (checkOrigin parse config req) =
     (if Version config = ProtocolVersionHybi13 \<and> Header_Get (req_Header req) ''Origin'' \<noteq> []
      then (case parse (Header_Get (req_Header req) ''Origin'') of
              Inl err \<Rightarrow> Some err | Inr u \<Rightarrow> None)
      else Some (errors_New ''null origin''))"
  by (auto simp: checkOrigin_def websocket_Origin_def Let_def split: sum.splits)

lemma checkOrigin_fst:
  "Origin (fst (checkOrigin parse config req)) =
     (if Version config = ProtocolVersionHybi13 \<and> Header_Get (req_Header req) ''Origin'' \<noteq> []
      then (case parse (Header_Get (req_Header req) ''Origin'') of
              Inl err \<Rightarrow> None | Inr u \<Rightarrow> Some u)
      else None)"
  by (auto simp: checkOrigin_def websocket_Origin_def Let_def split: sum.splits)

lemma wsServer_NewHandler:
  "wsServer (fst (NewHandler parse addr opts st)) = Some \<lparr>Handshake = checkOrigin parse\<rparr>"
  by (simp add: NewHandler_def Let_def split: prod.splits)

text \<open>
  C9. The handshake function of the handler's websocket server is \<open>checkOrigin\<close>. It
  returns the error \<open>null origin\<close> when the request has no \<open>Origin\<close> header or an
  empty one, and the parser's error when the header does not parse; it returns no error
  only when the header is not empty and parses, and then the configuration carries the
  parsed origin. The library answers 403 Forbidden whenever the handshake function
  returns an error, so a request is upgraded only with an origin that is not empty and
  parses.
\<close>

theorem checkOrigin_requires_origin:
  "(req_Header req ''Origin'' = None \<longrightarrow>
      snd (checkOrigin parse config req) = Some (errors_New ''null origin''))
   \<and> (Header_Get (req_Header req) ''Origin'' = [] \<longrightarrow>
      snd (checkOrigin parse config req) = Some (errors_New ''null origin''))
   \<and> (Version config = ProtocolVersionHybi13
       \<and> Header_Get (req_Header req) ''Origin'' \<noteq> []
       \<and> parse (Header_Get (req_Header req) ''Origin'') = Inl err \<longrightarrow>
      snd (checkOrigin parse config req) = Some err)
   \<and> (Version config = ProtocolVersionHybi13
       \<and> Header_Get (req_Header req) ''Origin'' \<noteq> []
       \<and> parse (Header_Get (req_Header req) ''Origin'') = Inr u \<longrightarrow>
      checkOrigin parse config req = (config\<lparr>Origin := Some u\<rparr>, None))
   \<and> (snd (checkOrigin parse config req) = None \<longrightarrow>
      Header_Get (req_Header req) ''Origin'' \<noteq> []
      \<and> (\<exists>v. parse (Header_Get (req_Header req) ''Origin'') = Inr v
              \<and> Origin (fst (checkOrigin parse config req)) = Some v))
   \<and> wsServer (fst (NewHandler parse addr opts st)) = Some \<lparr>Handshake = checkOrigin parse\<rparr>
   \<and> (snd (checkOrigin parse config req) \<noteq> None \<longrightarrow>
      accept \<lparr>Handshake = checkOrigin parse\<rparr> config req = Forbidden)
   \<and> (accept \<lparr>Handshake = checkOrigin parse\<rparr> config req = Upgraded c \<longrightarrow>
      Header_Get (req_Header req) ''Origin'' \<noteq> []
      \<and> (\<exists>v. parse (Header_Get (req_Header req) ''Origin'') = Inr v \<and> Origin c = Some v))"
proof -
  let ?o = "Header_Get (req_Header req) ''Origin''"
  have 1: "req_Header req ''Origin'' = None \<longrightarrow>
      snd (checkOrigin parse config req) = Some (errors_New ''null origin'')"
    by (simp add: checkOrigin_snd Header_Get_def)
  have 2: "?o = [] \<longrightarrow> snd (checkOrigin parse config req) = Some (errors_New ''null origin'')"
    by (simp add: checkOrigin_snd)
  have 3: "Version config = ProtocolVersionHybi13 \<and> ?o \<noteq> [] \<and> parse ?o = Inl err \<longrightarrow>
      snd (checkOrigin parse config req) = Some err"
    by (simp add: checkOrigin_snd)
  have 4: "Version config = ProtocolVersionHybi13 \<and> ?o \<noteq> [] \<and> parse ?o = Inr u \<longrightarrow>
      checkOrigin parse config req = (config\<lparr>Origin := Some u\<rparr>, None)"
    by (simp add: checkOrigin_def websocket_Origin_def)
  have 5: "snd (checkOrigin parse config req) = None \<longrightarrow>
      ?o \<noteq> [] \<and> (\<exists>v. parse ?o = Inr v \<and> Origin (fst (checkOrigin parse config req)) = Some v)"
    by (auto simp: checkOrigin_snd checkOrigin_fst split: if_splits sum.splits)
  have 6: "snd (checkOrigin parse config req) \<noteq> None \<longrightarrow>
      accept \<lparr>Handshake = checkOrigin parse\<rparr> config req = Forbidden"
    by (cases "checkOrigin parse config req") (auto simp: accept_def)
  have 7: "accept \<lparr>Handshake = checkOrigin parse\<rparr> config req = Upgraded c \<longrightarrow>
      ?o \<noteq> [] \<and> (\<exists>v. parse ?o = Inr v \<and> Origin c = Some v)"
  proof
    assume a: "accept \<lparr>Handshake = checkOrigin parse\<rparr> config req = Upgraded c"
    then have "snd (checkOrigin parse config req) = None" and "fst (checkOrigin parse config req) = c"
      by (cases "checkOrigin parse config req"; auto simp: accept_def split: option.splits)+
    with 5 show "?o \<noteq> [] \<and> (\<exists>v. parse ?o = Inr v \<and> Origin c = Some v)"
      by simp
  qed
  show ?thesis
    using 1 2 3 4 5 6 7 wsServer_NewHandler [of parse addr opts st] by blast
qed


theorem checkOrigin_requires_origin_witness:
  "req_Header request_without_origin ''Origin'' = None
   \<and> snd (checkOrigin example_parse example_config request_without_origin)
       = Some (errors_New ''null origin'')
   \<and> Header_Get (req_Header (request_with_origin [])) ''Origin'' = []
   \<and> snd (checkOrigin example_parse example_config (request_with_origin []))
       = Some (errors_New ''null origin'')
   \<and> example_parse ''::'' = Inl (errors_New ''invalid URI for request'')
   \<and> snd (checkOrigin example_parse example_config (request_with_origin ''::''))
       = Some (errors_New ''invalid URI for request'')
   \<and> accept \<lparr>Handshake = checkOrigin example_parse\<rparr> example_config
         (request_with_origin ''::'') = Forbidden
   \<and> example_parse ''http://example.com'' = Inr (example_URL ''http://example.com'')
   \<and> checkOrigin example_parse example_config (request_with_origin ''http://example.com'')
       = (example_config\<lparr>Origin := Some (example_URL ''http://example.com'')\<rparr>, None)"
proof -
  have v: "Version example_config = ProtocolVersionHybi13"
    by (simp add: example_config_def)
  have h: "Header_Get (req_Header (request_with_origin s)) ''Origin'' = s" for s
    by (simp add: request_with_origin_def Header_Get_def)
  have m: "req_Header request_without_origin ''Origin'' = None"
    by (simp add: request_without_origin_def)
  have b: "example_parse ''::'' = Inl (errors_New ''invalid URI for request'')"
    by (simp add: example_parse_def HasPrefix_def)
  have g: "example_parse ''http://example.com'' = Inr (example_URL ''http://example.com'')"
    by (simp add: example_parse_def HasPrefix_def)
  have n: "''::'' \<noteq> []" "''http://example.com'' \<noteq> []"
    by simp_all
  note t = checkOrigin_requires_origin [where parse = example_parse and config = example_config]
  from t [of request_without_origin] m
  have 1: "snd (checkOrigin example_parse example_config request_without_origin)
       = Some (errors_New ''null origin'')"
    by blast
  from t [of "request_with_origin []"] h [of "[]"]
  have 2: "snd (checkOrigin example_parse example_config (request_with_origin []))
       = Some (errors_New ''null origin'')"
    by blast
  from t [of "request_with_origin ''::''" "errors_New ''invalid URI for request''"]
    v b n(1) h [of "''::''"]
  have 3: "snd (checkOrigin example_parse example_config (request_with_origin ''::''))
       = Some (errors_New ''invalid URI for request'')"
    by simp
  from t [of "request_with_origin ''::''"] 3
  have 4: "accept \<lparr>Handshake = checkOrigin example_parse\<rparr> example_config
         (request_with_origin ''::'') = Forbidden"
    by simp
  from t [of "request_with_origin ''http://example.com''" _ "example_URL ''http://example.com''"]
    v g n(2) h [of "''http://example.com''"]
  have 5: "checkOrigin example_parse example_config (request_with_origin ''http://example.com'')
       = (example_config\<lparr>Origin := Some (example_URL ''http://example.com'')\<rparr>, None)"
    by simp
  show ?thesis
    using m 1 h [of "[]"] 2 b 3 4 g 5 by blast
qed

section \<open>Properties of the timed copy engine\<close>

subsection \<open>One pass of the loop\<close>

lemma reslice_0:
  "reslice buf 0 nr =
     (if 0 \<le> nr \<and> nr \<le> int (cap buf)
      then Return \<lparr>elems = take (nat nr) (elems buf @ spare buf),
                   spare = drop (nat nr) (elems buf @ spare buf)\<rparr>
      else Panic ''slice bounds out of range'')"
  by (simp add: reslice_def)

lemma cap_stored [simp]: "cap (stored buf p) = cap buf"
  by (auto simp: cap_def stored_def len_def)

lemma spare_stored [simp]: "spare (stored buf p) = spare buf"
  by (simp add: stored_def)

lemma length_elems_stored [simp]: "length (elems (stored buf p)) = length (elems buf)"
  by (auto simp: stored_def len_def)

lemma write_chunk_eq:
  assumes "Now io e = (now, e1)"
    and "SetWriteDeadline io e1 (now + timeout) = (dl, e2)"
    and "Write io e2 (take (nat nr) (elems buf @ spare buf)) = ((nw, ew), e3)"
  shows "write_chunk io timeout buf nr w e =
     (case dl of
        Some err \<Rightarrow> (Inl (Return (w, Some err)), e2)
      | None \<Rightarrow>
          if \<not> (0 \<le> nr \<and> nr \<le> int (cap buf))
            then (Inl (Panic ''slice bounds out of range''), e2)
          else if nw < 0 \<or> nr < nw then (Inl (Return (w, Some (invalid_write ew))), e3)
          else if ew \<noteq> None then (Inl (Return (w + word_of_int nw, ew)), e3)
          else if nr \<noteq> nw then (Inl (Return (w + word_of_int nw, Some ErrShortWrite)), e3)
          else (Inr (w + word_of_int nw), e3))"
  using assms
  by (auto simp: write_chunk_def reslice_0 invalid_write_def split: option.splits)

lemma iteration_no_bytes:
  assumes "Read io e buf = ((nr, er, p), e1)" and "nr \<le> 0"
  shows "iteration io timeout buf w e =
           (case er of
              Some err \<Rightarrow> (Inl (Return (w, if err \<noteq> EOF then Some err else None)), e1)
            | None \<Rightarrow> (Inr (stored buf p, w), e1))"
  using assms by (simp add: iteration_def)

lemma iteration_bytes:
  assumes "Read io e buf = ((nr, er, p), e1)" and "0 < nr"
    and "Now io e1 = (now, e2)"
    and "SetWriteDeadline io e2 (now + timeout) = (dl, e3)"
    and "Write io e3 (take (nat nr) (elems (stored buf p) @ spare buf)) = ((nw, ew), e4)"
  shows "iteration io timeout buf w e =
     (case dl of
        Some err \<Rightarrow> (Inl (Return (w, Some err)), e3)
      | None \<Rightarrow>
          if \<not> nr \<le> int (cap buf) then (Inl (Panic ''slice bounds out of range''), e3)
          else if nw < 0 \<or> nr < nw then (Inl (Return (w, Some (invalid_write ew))), e4)
          else if ew \<noteq> None then (Inl (Return (w + word_of_int nw, ew)), e4)
          else if nr \<noteq> nw then (Inl (Return (w + word_of_int nw, Some ErrShortWrite)), e4)
          else (case er of
                  Some err \<Rightarrow>
                    (Inl (Return (w + word_of_int nw, if err \<noteq> EOF then Some err else None)),
                     e4)
                | None \<Rightarrow> (Inr (stored buf p, w + word_of_int nw), e4)))"
proof -
  have wr: "Write io e3 (take (nat nr) (elems (stored buf p) @ spare (stored buf p)))
              = ((nw, ew), e4)"
    using assms(5) by simp
  show ?thesis
    using assms(1,2)
    by (auto simp: iteration_def write_chunk_eq [OF assms(3,4) wr] split: option.splits)
qed

subsection \<open>The recording environment\<close>

lemma recording_simps [simp]:
  "Read (recording io) (e, calls) buf =
     (case Read io e buf of (r, e') \<Rightarrow> (r, (e', calls)))"
  "Now (recording io) (e, calls) = (case Now io e of (t, e') \<Rightarrow> (t, (e', calls)))"
  "SetWriteDeadline (recording io) (e, calls) t =
     (case SetWriteDeadline io e t of
        (err, e') \<Rightarrow> (err, (e', calls @ [SetWriteDeadline_call t err])))"
  "Write (recording io) (e, calls) p =
     (case Write io e p of
        ((n, err), e') \<Rightarrow> ((n, err), (e', calls @ [Write_call p n err])))"
  by (simp_all add: recording_def)

lemma bytes_written_append [simp]:
  "bytes_written (xs @ ys) = bytes_written xs + bytes_written ys"
  by (simp add: bytes_written_def)

lemma bytes_written_Nil [simp]: "bytes_written [] = 0"
  by (simp add: bytes_written_def)

lemma accepted_nonneg: "0 \<le> accepted c"
  by (cases c) simp_all

lemma bytes_written_nonneg: "0 \<le> bytes_written calls"
  unfolding bytes_written_def
  by (induction calls) (simp_all add: accepted_nonneg add_nonneg_nonneg)

lemma sint_bytes_written:
  assumes "bytes_written calls < 2 ^ 63"
  shows "sint (word_of_int (bytes_written calls) :: 64 word) = bytes_written calls"
proof -
  have "- (2 ^ 63) \<le> bytes_written calls"
    using bytes_written_nonneg [of calls] by simp
  then show ?thesis
    using assms by (simp add: sint_sbintrunc' signed_take_bit_int_eq_self)
qed

text \<open>One pass in the recording environment: the same result, and the calls it adds.\<close>

lemma iteration_recording_no_bytes:
  assumes "Read io e buf = ((nr, er, p), e1)" and "nr \<le> 0"
  shows "iteration (recording io) timeout buf w (e, calls) =
           (fst (iteration io timeout buf w e), (e1, calls))"
proof -
  have r: "Read (recording io) (e, calls) buf = ((nr, er, p), (e1, calls))"
    using assms(1) by simp
  show ?thesis
    by (auto simp: iteration_no_bytes [OF r assms(2)] iteration_no_bytes [OF assms]
        split: option.splits)
qed

lemma iteration_recording_bytes:
  assumes "Read io e buf = ((nr, er, p), e1)" and "0 < nr"
    and "Now io e1 = (now, e2)"
    and "SetWriteDeadline io e2 (now + timeout) = (dl, e3)"
    and "Write io e3 (take (nat nr) (elems (stored buf p) @ spare buf)) = ((nw, ew), e4)"
  shows "iteration (recording io) timeout buf w (e, calls) =
           (fst (iteration io timeout buf w e),
            (snd (iteration io timeout buf w e),
             calls @ (if dl = None \<and> nr \<le> int (cap buf)
                    then [SetWriteDeadline_call (now + timeout) None,
                          Write_call (take (nat nr) (elems (stored buf p) @ spare buf)) nw ew]
                    else [SetWriteDeadline_call (now + timeout) dl])))"
proof -
  let ?c = "take (nat nr) (elems (stored buf p) @ spare buf)"
  have r: "Read (recording io) (e, calls) buf = ((nr, er, p), (e1, calls))"
    using assms(1) by simp
  have n: "Now (recording io) (e1, calls) = (now, (e2, calls))"
    using assms(3) by simp
  have d: "SetWriteDeadline (recording io) (e2, calls) (now + timeout) =
             (dl, (e3, calls @ [SetWriteDeadline_call (now + timeout) dl]))"
    using assms(4) by simp
  have w: "Write (recording io) (e3, calls @ [SetWriteDeadline_call (now + timeout) dl]) ?c =
             ((nw, ew),
              (e4, (calls @ [SetWriteDeadline_call (now + timeout) dl]) @ [Write_call ?c nw ew]))"
    using assms(5) by simp
  show ?thesis
    by (auto simp: iteration_bytes [OF r assms(2) n d w] iteration_bytes [OF assms]
        split: option.splits)
qed

lemma length_chunk:
  "0 < nr \<Longrightarrow> nr \<le> int (cap buf) \<Longrightarrow>
   int (length (take (nat nr) (elems (stored buf p) @ spare buf))) = nr"
  by (auto simp: cap_def min_def)

lemma iteration_recording:
  "\<exists>new. iteration (recording io) timeout buf w (e, calls) =
           (fst (iteration io timeout buf w e), (snd (iteration io timeout buf w e), calls @ new))
         \<and> (case fst (iteration io timeout buf w e) of
               Inl (Return (n, err)) \<Rightarrow> n = w + word_of_int (bytes_written new)
             | Inl (Panic m) \<Rightarrow> True
             | Inr (b, n) \<Rightarrow> n = w + word_of_int (bytes_written new))"
proof -
  obtain nr er p e1 where rd: "Read io e buf = ((nr, er, p), e1)"
    by (metis prod.exhaust)
  obtain now e2 where nw: "Now io e1 = (now, e2)"
    by (metis prod.exhaust)
  obtain dl e3 where dl: "SetWriteDeadline io e2 (now + timeout) = (dl, e3)"
    by (metis prod.exhaust)
  obtain nw ew e4 where
    wr: "Write io e3 (take (nat nr) (elems (stored buf p) @ spare buf)) = ((nw, ew), e4)"
    by (metis prod.exhaust)
  show ?thesis
  proof (cases "0 < nr")
    case False
    then have le: "nr \<le> 0" by simp
    show ?thesis
      by (rule exI [of _ "[]"])
         (auto simp: iteration_recording_no_bytes [OF rd le] iteration_no_bytes [OF rd le]
            split: option.splits)
  next
    case True
    let ?c = "take (nat nr) (elems (stored buf p) @ spare buf)"
    let ?new = "if dl = None \<and> nr \<le> int (cap buf)
                    then [SetWriteDeadline_call (now + timeout) None, Write_call ?c nw ew]
                    else [SetWriteDeadline_call (now + timeout) dl]"
    have b: "bytes_written ?new =
               (if dl = None \<and> nr \<le> int (cap buf) \<and> 0 \<le> nw \<and> nw \<le> nr then nw else 0)"
      using length_chunk [OF True, of buf p] by (auto simp: bytes_written_def)
    show ?thesis
      apply (rule exI [of _ ?new])
      apply (simp only: iteration_recording_bytes [OF rd True nw dl wr] b)
      apply (auto simp: iteration_bytes [OF rd True nw dl wr] split: option.splits)
      done
  qed
qed

lemma copy_loop_recording_Some:
  assumes "copy_loop (recording io) timeout buf w (e, calls) = Some (r, (e', calls'))"
  shows "copy_loop io timeout buf w e = Some (r, e')
       \<and> (\<exists>new. calls' = calls @ new
            \<and> (\<forall>n err. r = Return (n, err) \<longrightarrow> n = w + word_of_int (bytes_written new)))"
proof -
  let ?P = "\<lambda>(io' :: ('a \<times> call list) io) timeout buf w s y.
        (\<forall>io e calls r e' calls'. io' = recording io \<longrightarrow> s = (e, calls) \<longrightarrow> y = (r, (e', calls')) \<longrightarrow>
           copy_loop io timeout buf w e = Some (r, e')
           \<and> (\<exists>new. calls' = calls @ new
                \<and> (\<forall>n err. r = Return (n, err) \<longrightarrow> n = w + word_of_int (bytes_written new))))"
  have "?P io' timeout buf w s y" if "copy_loop io' timeout buf w s = Some y"
    for io' :: "('a \<times> call list) io" and timeout buf w s y
  proof (rule copy_loop.raw_induct [where P = ?P, OF _ that])
    fix f and io' :: "('a \<times> call list) io" and timeout buf w s y
    assume 1: "\<And>io' timeout buf w s y. f io' timeout buf w s = Some y \<Longrightarrow> ?P io' timeout buf w s y"
      "(case iteration io' timeout buf w s of
          (Inl res, e') \<Rightarrow> Some (res, e')
        | (Inr (buf', written'), e') \<Rightarrow> f io' timeout buf' written' e') = Some y"
    show "?P io' timeout buf w s y"
    proof (intro allI impI)
      fix io :: "'a io" and e calls r e' calls'
      assume io': "io' = recording io" and s: "s = (e, calls)" and y: "y = (r, (e', calls'))"
      obtain new where it: "iteration (recording io) timeout buf w (e, calls) =
           (fst (iteration io timeout buf w e), (snd (iteration io timeout buf w e), calls @ new))"
        and cnt: "(case fst (iteration io timeout buf w e) of
               Inl (Return (n, err)) \<Rightarrow> n = w + word_of_int (bytes_written new)
             | Inl (Panic m) \<Rightarrow> True
             | Inr (b, n) \<Rightarrow> n = w + word_of_int (bytes_written new))"
        using iteration_recording [of io timeout buf w e calls] by blast
      show "copy_loop io timeout buf w e = Some (r, e')
           \<and> (\<exists>new. calls' = calls @ new
                \<and> (\<forall>n err. r = Return (n, err) \<longrightarrow> n = w + word_of_int (bytes_written new)))"
      proof (cases "iteration io timeout buf w e")
        case (Pair a e2)
        show ?thesis
        proof (cases a)
          case (Inl res)
          with Pair it 1(2) io' s y have "r = res" "e' = e2" "calls' = calls @ new"
            by simp_all
          moreover have "copy_loop io timeout buf w e = Some (res, e2)"
            using Pair Inl by (subst copy_loop.simps) simp
          ultimately show ?thesis
            using cnt Pair Inl by (auto split: outcome.splits)
        next
          case (Inr bw)
          obtain b n where bw: "bw = (b, n)" by (cases bw)
          from Pair Inr bw it 1(2) io' s y
          have f: "f (recording io) timeout b n (e2, calls @ new) = Some (r, (e', calls'))"
            by simp
          from 1(1) [OF f] have
            c: "copy_loop io timeout b n e2 = Some (r, e')"
            and l: "\<exists>new'. calls' = (calls @ new) @ new'
                \<and> (\<forall>m err. r = Return (m, err) \<longrightarrow> m = n + word_of_int (bytes_written new'))"
            by blast+
          have n: "n = w + word_of_int (bytes_written new)"
            using cnt Pair Inr bw by simp
          have "copy_loop io timeout buf w e = Some (r, e')"
            using Pair Inr bw c by (subst copy_loop.simps) simp
          moreover from l obtain new' where "calls' = calls @ (new @ new')"
            and "\<forall>m err. r = Return (m, err) \<longrightarrow> m = n + word_of_int (bytes_written new')"
            by auto
          then have "calls' = calls @ (new @ new')
              \<and> (\<forall>m err. r = Return (m, err) \<longrightarrow>
                     m = w + word_of_int (bytes_written (new @ new')))"
            using n by (simp add: add.assoc)
          ultimately show ?thesis by blast
        qed
      qed
    qed
  qed
  from this [OF assms] show ?thesis by blast
qed

lemma copy_loop_recording_ex:
  assumes "copy_loop io timeout buf w e = Some (r, e')"
  shows "\<exists>calls'. copy_loop (recording io) timeout buf w (e, calls) = Some (r, (e', calls'))"
proof -
  let ?Q = "\<lambda>(io :: 'a io) timeout buf w e y.
        (\<forall>calls. \<exists>calls'. copy_loop (recording io) timeout buf w (e, calls) = Some (fst y, (snd y, calls')))"
  have "?Q io timeout buf w e y" if "copy_loop io timeout buf w e = Some y"
    for io :: "'a io" and timeout buf w e y
  proof (rule copy_loop.raw_induct [where P = ?Q, OF _ that])
    fix f and io :: "'a io" and timeout buf w e y
    assume 1: "\<And>io timeout buf w e y. f io timeout buf w e = Some y \<Longrightarrow> ?Q io timeout buf w e y"
      "(case iteration io timeout buf w e of
          (Inl res, e') \<Rightarrow> Some (res, e')
        | (Inr (buf', written'), e') \<Rightarrow> f io timeout buf' written' e') = Some y"
    show "?Q io timeout buf w e y"
    proof
      fix calls
      obtain new where it: "iteration (recording io) timeout buf w (e, calls) =
           (fst (iteration io timeout buf w e), (snd (iteration io timeout buf w e), calls @ new))"
        using iteration_recording [of io timeout buf w e calls] by blast
      show "\<exists>calls'. copy_loop (recording io) timeout buf w (e, calls) = Some (fst y, (snd y, calls'))"
      proof (cases "iteration io timeout buf w e")
        case (Pair a e2)
        show ?thesis
        proof (cases a)
          case (Inl res)
          with Pair 1(2) have "y = (res, e2)" by simp
          then show ?thesis
            using Pair Inl it by (subst copy_loop.simps) simp
        next
          case (Inr bw)
          obtain b n where bw: "bw = (b, n)" by (cases bw)
          from Pair Inr bw 1(2) have "f io timeout b n e2 = Some y" by simp
          from 1(1) [OF this] obtain calls' where
            "copy_loop (recording io) timeout b n (e2, calls @ new) = Some (fst y, (snd y, calls'))"
            by blast
          then show ?thesis
            using Pair Inr bw it by (subst copy_loop.simps) simp
        qed
      qed
    qed
  qed
  from this [OF assms] show ?thesis by simp
qed


subsection \<open>The loop\<close>

lemma copy_loop_break:
  "iteration io timeout buf w e = (Inl res, e') \<Longrightarrow>
   copy_loop io timeout buf w e = Some (res, e')"
  by (subst copy_loop.simps) simp

lemma copy_loop_continue:
  "iteration io timeout buf w e = (Inr (buf', w'), e') \<Longrightarrow>
   copy_loop io timeout buf w e = copy_loop io timeout buf' w' e'"
  by (subst copy_loop.simps) simp

lemma stored_chunk:
  assumes "0 < nr" and "nr \<le> int (len buf)" and "nr \<le> int (length p)"
  shows "take (nat nr) (elems (stored buf p) @ spare buf) = take (nat nr) p"
proof -
  have m: "nat nr \<le> length p" "nat nr \<le> length (elems buf)"
    using assms by (simp_all add: len_def nat_le_iff)
  then have n: "nat nr \<le> length (take (len buf) p)"
    by (simp add: len_def)
  have "take (nat nr) (elems (stored buf p) @ spare buf)
          = take (nat nr) (take (len buf) p)"
    using n by (simp add: stored_def)
  also have "\<dots> = take (nat nr) p"
    using m by (simp add: len_def min_def)
  finally show ?thesis .
qed

text \<open>
  C1, as the claim states it, fails at four kinds of input.
  \<^item> A write that reports a negative count: the count is fewer than the bytes requested
    and there is no error, but the function returns the error \<open>invalid write result\<close>,
    not \<open>io.ErrShortWrite\<close>, and counts no byte. The sink here reports -1 for a write
    of three bytes.
  \<^item> A sink that refuses the deadline: the read has yielded three bytes, and the function
    returns the error of \<open>SetWriteDeadline\<close> without a call of \<open>Write\<close>.
  \<^item> A write that takes all the bytes and reports an error, in a pass whose read has
    reported an error other than \<open>io.EOF\<close>: the function returns the error of the write,
    not that of the read.
  \<^item> A source that reports more bytes than the buffer can hold (5 for a buffer of
    capacity 4): the function panics in \<open>buf[0:nr]\<close>, after it has set the deadline.
\<close>

theorem CopyBufferWithWriteTimeout_other_exits:
  "Read (example_io (- 1)) [(3, None, [1, 2, 3])] (make_bytes 4) = ((3, None, [1, 2, 3]), [])
   \<and> Write (example_io (- 1)) [] [1, 2, 3] = ((- 1, None), [])
   \<and> CopyBufferWithWriteTimeout (example_io (- 1)) (make_bytes 4) 15 [(3, None, [1, 2, 3])]
       = Some (Return (0, Some (errors_New ''invalid write result'')), [])
   \<and> errors_New ''invalid write result'' \<noteq> ErrShortWrite
   \<and> CopyBufferWithWriteTimeout (recording (faulty_io (Some (errors_New ''i/o timeout'')) None))
         (make_bytes 4) 15 ([(3, None, [1, 2, 3])], [])
       = Some (Return (0, Some (errors_New ''i/o timeout'')),
               ([], [SetWriteDeadline_call 1015 (Some (errors_New ''i/o timeout''))]))
   \<and> Read (faulty_io None (Some (errors_New ''broken pipe'')))
         [(2, Some (errors_New ''connection reset''), [7, 8])] (make_bytes 4)
       = ((2, Some (errors_New ''connection reset''), [7, 8]), [])
   \<and> Write (faulty_io None (Some (errors_New ''broken pipe''))) [] [7, 8]
       = ((2, Some (errors_New ''broken pipe'')), [])
   \<and> CopyBufferWithWriteTimeout (faulty_io None (Some (errors_New ''broken pipe'')))
         (make_bytes 4) 15 [(2, Some (errors_New ''connection reset''), [7, 8])]
       = Some (Return (2, Some (errors_New ''broken pipe'')), [])
   \<and> errors_New ''broken pipe'' \<noteq> errors_New ''connection reset''
   \<and> cap (make_bytes 4) = 4
   \<and> CopyBufferWithWriteTimeout (recording (example_io 16)) (make_bytes 4) 15
         ([(5, None, [1, 2, 3, 4, 5])], [])
       = Some (Panic ''slice bounds out of range'', ([], [SetWriteDeadline_call 1015 None]))"
proof -
  note defs = CopyBufferWithWriteTimeout_def copy_loop.simps iteration_def write_chunk_def
      example_io_def faulty_io_def make_bytes_def stored_def len_def reslice_def cap_def
      recording_def
  have 1: "Read (example_io (- 1)) [(3, None, [1, 2, 3])] (make_bytes 4)
             = ((3, None, [1, 2, 3]), [])"
    by (simp add: example_io_def)
  have 2: "Write (example_io (- 1)) [] [1, 2, 3] = ((- 1, None), [])"
    by (simp add: example_io_def)
  have 3: "CopyBufferWithWriteTimeout (example_io (- 1)) (make_bytes 4) 15
             [(3, None, [1, 2, 3])]
       = Some (Return (0, Some (errors_New ''invalid write result'')), [])"
    by (simp add: defs)
  have 4: "errors_New ''invalid write result'' \<noteq> ErrShortWrite"
    by simp
  have 5: "CopyBufferWithWriteTimeout
         (recording (faulty_io (Some (errors_New ''i/o timeout'')) None))
         (make_bytes 4) 15 ([(3, None, [1, 2, 3])], [])
       = Some (Return (0, Some (errors_New ''i/o timeout'')),
               ([], [SetWriteDeadline_call 1015 (Some (errors_New ''i/o timeout''))]))"
    by (simp add: defs)
  have 6: "Read (faulty_io None (Some (errors_New ''broken pipe'')))
         [(2, Some (errors_New ''connection reset''), [7, 8])] (make_bytes 4)
       = ((2, Some (errors_New ''connection reset''), [7, 8]), [])"
    by (simp add: faulty_io_def)
  have 7: "Write (faulty_io None (Some (errors_New ''broken pipe''))) [] [7, 8]
       = ((2, Some (errors_New ''broken pipe'')), [])"
    by (simp add: faulty_io_def)
  have 8: "CopyBufferWithWriteTimeout (faulty_io None (Some (errors_New ''broken pipe'')))
         (make_bytes 4) 15 [(2, Some (errors_New ''connection reset''), [7, 8])]
       = Some (Return (2, Some (errors_New ''broken pipe'')), [])"
    by (simp add: defs)
  have 9: "errors_New ''broken pipe'' \<noteq> errors_New ''connection reset''"
    by simp
  have 10: "cap (make_bytes 4) = 4"
    by (simp add: cap_def make_bytes_def)
  have 11: "CopyBufferWithWriteTimeout (recording (example_io 16)) (make_bytes 4) 15
         ([(5, None, [1, 2, 3, 4, 5])], [])
       = Some (Panic ''slice bounds out of range'', ([], [SetWriteDeadline_call 1015 None]))"
    by (simp add: defs)
  show ?thesis
    using 1 2 3 4 5 6 7 8 9 10 11 by (intro conjI)
qed

text \<open>
  C1, amended. One pass of the loop, with the answers of the environment named by the
  hypotheses: \<open>Read\<close> returns \<open>nr\<close>, \<open>er\<close> and has stored \<open>p\<close>; the clock reads \<open>now\<close>;
  setting the deadline returns \<open>dl\<close>; the write returns \<open>nw\<close> and \<open>ew\<close>. The cases
  below are all the cases there are.
  \<^item> When the read yields no bytes, the pass makes no call on the sink.
  \<^item> When it yields \<open>nr > 0\<close> bytes, the pass sets the write deadline to
    \<open>now + timeout\<close>. If that fails, this is the only call on the sink, and the loop
    ends: the function returns the error of \<open>SetWriteDeadline\<close>. If \<open>nr\<close> is more than
    the capacity of the buffer, this is the only call on the sink too, and the function
    panics in \<open>buf[0:nr]\<close>. Otherwise the pass then writes the first \<open>nr\<close> bytes of the
    buffer, which are the bytes the read has stored when it has stored that many; the
    two are its only calls on the sink.
  \<^item> A write that reports a count below 0 or above \<open>nr\<close> ends the loop: no byte of it
    is counted, and the function returns the error of the write, or \<open>invalid write
    result\<close> when there is none. Any other write that reports an error ends the loop with
    that error. A write that reports a count \<open>0 \<le> nw < nr\<close> without an error ends the
    loop: the function returns \<open>io.ErrShortWrite\<close>.
  \<^item> When the bytes read are written in full without an error, or no bytes were read:
    a read error other than \<open>io.EOF\<close> ends the loop and is returned; \<open>io.EOF\<close> ends the
    loop and nil is returned; without a read error the loop goes on with the next pass.
  \<^item> Whenever the function returns, the count it returns is the total of the bytes the
    sink has reported written over all its writes (as an \<open>int64\<close>: the total itself
    as long as that is below \<open>2^63\<close>).
\<close>

theorem CopyBufferWithWriteTimeout_follows_loop:
  fixes io :: "'e io"
  assumes "Read io e buf = ((nr, er, p), e1)"
    and "Now io e1 = (now, e2)"
    and "SetWriteDeadline io e2 (now + timeout) = (dl, e3)"
    and "Write io e3 (take (nat nr) (elems (stored buf p) @ spare buf)) = ((nw, ew), e4)"
  shows
   "(nr \<le> 0 \<longrightarrow> snd (iteration (recording io) timeout buf written (e, calls)) = (e1, calls))
    \<and> (0 < nr \<and> dl \<noteq> None \<longrightarrow>
         snd (iteration (recording io) timeout buf written (e, calls)) =
           (e3, calls @ [SetWriteDeadline_call (now + timeout) dl])
         \<and> copy_loop io timeout buf written e = Some (Return (written, dl), e3))
    \<and> (0 < nr \<and> dl = None \<and> int (cap buf) < nr \<longrightarrow>
         snd (iteration (recording io) timeout buf written (e, calls)) =
           (e3, calls @ [SetWriteDeadline_call (now + timeout) None])
         \<and> copy_loop io timeout buf written e =
             Some (Panic ''slice bounds out of range'', e3))
    \<and> (0 < nr \<and> dl = None \<and> nr \<le> int (cap buf) \<longrightarrow>
         snd (iteration (recording io) timeout buf written (e, calls)) =
           (e4, calls @ [SetWriteDeadline_call (now + timeout) None,
                         Write_call (take (nat nr) (elems (stored buf p) @ spare buf)) nw ew])
         \<and> int (length (take (nat nr) (elems (stored buf p) @ spare buf))) = nr)
    \<and> (0 < nr \<and> nr \<le> int (len buf) \<and> nr \<le> int (length p) \<longrightarrow>
         take (nat nr) (elems (stored buf p) @ spare buf) = take (nat nr) p)
    \<and> (0 < nr \<and> dl = None \<and> nr \<le> int (cap buf) \<and> (nw < 0 \<or> nr < nw) \<longrightarrow>
         copy_loop io timeout buf written e =
           Some (Return (written, Some (invalid_write ew)), e4))
    \<and> (0 < nr \<and> dl = None \<and> nr \<le> int (cap buf) \<and> 0 \<le> nw \<and> nw \<le> nr \<and> ew \<noteq> None \<longrightarrow>
         copy_loop io timeout buf written e =
           Some (Return (written + word_of_int nw, ew), e4))
    \<and> (0 < nr \<and> dl = None \<and> nr \<le> int (cap buf) \<and> 0 \<le> nw \<and> nw < nr \<and> ew = None \<longrightarrow>
         copy_loop io timeout buf written e =
           Some (Return (written + word_of_int nw, Some ErrShortWrite), e4))
    \<and> (0 < nr \<and> dl = None \<and> nr \<le> int (cap buf) \<and> nw = nr \<and> ew = None \<longrightarrow>
         (\<forall>err. er = Some err \<and> err \<noteq> EOF \<longrightarrow>
            copy_loop io timeout buf written e =
              Some (Return (written + word_of_int nr, Some err), e4))
         \<and> (er = Some EOF \<longrightarrow>
            copy_loop io timeout buf written e =
              Some (Return (written + word_of_int nr, None), e4))
         \<and> (er = None \<longrightarrow>
            copy_loop io timeout buf written e =
              copy_loop io timeout (stored buf p) (written + word_of_int nr) e4))
    \<and> (nr \<le> 0 \<longrightarrow>
         (\<forall>err. er = Some err \<and> err \<noteq> EOF \<longrightarrow>
            copy_loop io timeout buf written e = Some (Return (written, Some err), e1))
         \<and> (er = Some EOF \<longrightarrow>
            copy_loop io timeout buf written e = Some (Return (written, None), e1))
         \<and> (er = None \<longrightarrow>
            copy_loop io timeout buf written e = copy_loop io timeout (stored buf p) written e1))
    \<and> (\<forall>n err e'.
         CopyBufferWithWriteTimeout io buf timeout e = Some (Return (n, err), e') \<longrightarrow>
         (\<exists>calls'. CopyBufferWithWriteTimeout (recording io) buf timeout (e, [])
                      = Some (Return (n, err), (e', calls'))
                  \<and> n = word_of_int (bytes_written calls')
                  \<and> (bytes_written calls' < 2 ^ 63 \<longrightarrow> sint n = bytes_written calls')))"
proof -
  let ?c = "take (nat nr) (elems (stored buf p) @ spare buf)"
  note ib = iteration_bytes [OF assms(1) _ assms(2,3,4)]
  note irb = iteration_recording_bytes [OF assms(1) _ assms(2,3,4)]
  have 1: "nr \<le> 0 \<longrightarrow>
      snd (iteration (recording io) timeout buf written (e, calls)) = (e1, calls)"
    using iteration_recording_no_bytes [OF assms(1)] by simp
  have 2: "0 < nr \<and> dl \<noteq> None \<longrightarrow>
         snd (iteration (recording io) timeout buf written (e, calls)) =
           (e3, calls @ [SetWriteDeadline_call (now + timeout) dl])
         \<and> copy_loop io timeout buf written e = Some (Return (written, dl), e3)"
  proof (intro impI, elim conjE)
    assume a: "0 < nr" "dl \<noteq> None"
    then obtain err where d: "dl = Some err" by auto
    have i: "iteration io timeout buf written e = (Inl (Return (written, dl)), e3)"
      using d by (simp add: ib [OF a(1)])
    then have "copy_loop io timeout buf written e = Some (Return (written, dl), e3)"
      by (rule copy_loop_break)
    then show "snd (iteration (recording io) timeout buf written (e, calls)) =
           (e3, calls @ [SetWriteDeadline_call (now + timeout) dl])
         \<and> copy_loop io timeout buf written e = Some (Return (written, dl), e3)"
      using a(2) i by (simp add: irb [OF a(1)])
  qed
  have 3: "0 < nr \<and> dl = None \<and> int (cap buf) < nr \<longrightarrow>
         snd (iteration (recording io) timeout buf written (e, calls)) =
           (e3, calls @ [SetWriteDeadline_call (now + timeout) None])
         \<and> copy_loop io timeout buf written e =
             Some (Panic ''slice bounds out of range'', e3)"
  proof (intro impI, elim conjE)
    assume a: "0 < nr" "dl = None" "int (cap buf) < nr"
    have i: "iteration io timeout buf written e =
               (Inl (Panic ''slice bounds out of range''), e3)"
      using a(2,3) by (simp add: ib [OF a(1)])
    then have "copy_loop io timeout buf written e =
                 Some (Panic ''slice bounds out of range'', e3)"
      by (rule copy_loop_break)
    then show "snd (iteration (recording io) timeout buf written (e, calls)) =
           (e3, calls @ [SetWriteDeadline_call (now + timeout) None])
         \<and> copy_loop io timeout buf written e =
             Some (Panic ''slice bounds out of range'', e3)"
      using a(2,3) i by (simp add: irb [OF a(1)])
  qed
  have 4: "0 < nr \<and> dl = None \<and> nr \<le> int (cap buf) \<longrightarrow>
         snd (iteration (recording io) timeout buf written (e, calls)) =
           (e4, calls @ [SetWriteDeadline_call (now + timeout) None, Write_call ?c nw ew])
         \<and> int (length ?c) = nr"
  proof (intro impI, elim conjE)
    assume a: "0 < nr" "dl = None" "nr \<le> int (cap buf)"
    have "snd (iteration io timeout buf written e) = e4"
      using a by (auto simp: ib [OF a(1)] split: option.splits)
    then show "snd (iteration (recording io) timeout buf written (e, calls)) =
           (e4, calls @ [SetWriteDeadline_call (now + timeout) None, Write_call ?c nw ew])
         \<and> int (length ?c) = nr"
      using a length_chunk [OF a(1,3), of p]
      by (simp add: irb [OF a(1)])
  qed
  have 5: "0 < nr \<and> nr \<le> int (len buf) \<and> nr \<le> int (length p) \<longrightarrow> ?c = take (nat nr) p"
    using stored_chunk [of nr buf p] by blast
  have 6: "0 < nr \<and> dl = None \<and> nr \<le> int (cap buf) \<and> (nw < 0 \<or> nr < nw) \<longrightarrow>
         copy_loop io timeout buf written e =
           Some (Return (written, Some (invalid_write ew)), e4)"
  proof (intro impI, elim conjE)
    assume a: "0 < nr" "dl = None" "nr \<le> int (cap buf)" "nw < 0 \<or> nr < nw"
    then have "iteration io timeout buf written e =
        (Inl (Return (written, Some (invalid_write ew))), e4)"
      by (simp add: ib [OF a(1)])
    then show "copy_loop io timeout buf written e =
           Some (Return (written, Some (invalid_write ew)), e4)"
      by (rule copy_loop_break)
  qed
  have 7: "0 < nr \<and> dl = None \<and> nr \<le> int (cap buf) \<and> 0 \<le> nw \<and> nw \<le> nr \<and> ew \<noteq> None \<longrightarrow>
         copy_loop io timeout buf written e =
           Some (Return (written + word_of_int nw, ew), e4)"
  proof (intro impI, elim conjE)
    assume a: "0 < nr" "dl = None" "nr \<le> int (cap buf)" "0 \<le> nw" "nw \<le> nr" "ew \<noteq> None"
    then have "iteration io timeout buf written e =
        (Inl (Return (written + word_of_int nw, ew)), e4)"
      by (auto simp: ib [OF a(1)])
    then show "copy_loop io timeout buf written e =
           Some (Return (written + word_of_int nw, ew), e4)"
      by (rule copy_loop_break)
  qed
  have 8: "0 < nr \<and> dl = None \<and> nr \<le> int (cap buf) \<and> 0 \<le> nw \<and> nw < nr \<and> ew = None \<longrightarrow>
         copy_loop io timeout buf written e =
           Some (Return (written + word_of_int nw, Some ErrShortWrite), e4)"
  proof (intro impI, elim conjE)
    assume a: "0 < nr" "dl = None" "nr \<le> int (cap buf)" "0 \<le> nw" "nw < nr" "ew = None"
    then have "iteration io timeout buf written e =
        (Inl (Return (written + word_of_int nw, Some ErrShortWrite)), e4)"
      by (simp add: ib [OF a(1)])
    then show "copy_loop io timeout buf written e =
           Some (Return (written + word_of_int nw, Some ErrShortWrite), e4)"
      by (rule copy_loop_break)
  qed
  have 9: "0 < nr \<and> dl = None \<and> nr \<le> int (cap buf) \<and> nw = nr \<and> ew = None \<longrightarrow>
         (\<forall>err. er = Some err \<and> err \<noteq> EOF \<longrightarrow>
            copy_loop io timeout buf written e =
              Some (Return (written + word_of_int nr, Some err), e4))
         \<and> (er = Some EOF \<longrightarrow>
            copy_loop io timeout buf written e =
              Some (Return (written + word_of_int nr, None), e4))
         \<and> (er = None \<longrightarrow>
            copy_loop io timeout buf written e =
              copy_loop io timeout (stored buf p) (written + word_of_int nr) e4)"
  proof (intro impI, elim conjE)
    assume a: "0 < nr" "dl = None" "nr \<le> int (cap buf)" "nw = nr" "ew = None"
    then have i: "iteration io timeout buf written e =
        (case er of
           Some err \<Rightarrow>
             (Inl (Return (written + word_of_int nr, if err \<noteq> EOF then Some err else None)), e4)
         | None \<Rightarrow> (Inr (stored buf p, written + word_of_int nr), e4))"
      by (auto simp: ib [OF a(1)] split: option.splits)
    show "(\<forall>err. er = Some err \<and> err \<noteq> EOF \<longrightarrow>
            copy_loop io timeout buf written e =
              Some (Return (written + word_of_int nr, Some err), e4))
         \<and> (er = Some EOF \<longrightarrow>
            copy_loop io timeout buf written e =
              Some (Return (written + word_of_int nr, None), e4))
         \<and> (er = None \<longrightarrow>
            copy_loop io timeout buf written e =
              copy_loop io timeout (stored buf p) (written + word_of_int nr) e4)"
      using i by (auto intro: copy_loop_break copy_loop_continue)
  qed
  have 10: "nr \<le> 0 \<longrightarrow>
         (\<forall>err. er = Some err \<and> err \<noteq> EOF \<longrightarrow>
            copy_loop io timeout buf written e = Some (Return (written, Some err), e1))
         \<and> (er = Some EOF \<longrightarrow>
            copy_loop io timeout buf written e = Some (Return (written, None), e1))
         \<and> (er = None \<longrightarrow>
            copy_loop io timeout buf written e = copy_loop io timeout (stored buf p) written e1)"
  proof
    assume a: "nr \<le> 0"
    note i = iteration_no_bytes [OF assms(1) a, of timeout written]
    show "(\<forall>err. er = Some err \<and> err \<noteq> EOF \<longrightarrow>
            copy_loop io timeout buf written e = Some (Return (written, Some err), e1))
         \<and> (er = Some EOF \<longrightarrow>
            copy_loop io timeout buf written e = Some (Return (written, None), e1))
         \<and> (er = None \<longrightarrow>
            copy_loop io timeout buf written e = copy_loop io timeout (stored buf p) written e1)"
      using i by (auto intro: copy_loop_break copy_loop_continue)
  qed
  have 11: "\<forall>n err e'.
         CopyBufferWithWriteTimeout io buf timeout e = Some (Return (n, err), e') \<longrightarrow>
         (\<exists>calls'. CopyBufferWithWriteTimeout (recording io) buf timeout (e, [])
                      = Some (Return (n, err), (e', calls'))
                  \<and> n = word_of_int (bytes_written calls')
                  \<and> (bytes_written calls' < 2 ^ 63 \<longrightarrow> sint n = bytes_written calls'))"
  proof (intro allI impI)
    fix n err e'
    assume "CopyBufferWithWriteTimeout io buf timeout e = Some (Return (n, err), e')"
    then have "copy_loop io timeout buf 0 e = Some (Return (n, err), e')"
      by (simp add: CopyBufferWithWriteTimeout_def)
    from copy_loop_recording_ex [OF this, of "[]"] obtain calls' where
      r: "copy_loop (recording io) timeout buf 0 (e, []) = Some (Return (n, err), (e', calls'))"
      by blast
    from copy_loop_recording_Some [OF r] have n: "n = word_of_int (bytes_written calls')"
      by auto
    have "bytes_written calls' < 2 ^ 63 \<longrightarrow> sint n = bytes_written calls'"
      using n sint_bytes_written [of calls'] by simp
    with r n show "\<exists>calls'. CopyBufferWithWriteTimeout (recording io) buf timeout (e, [])
                      = Some (Return (n, err), (e', calls'))
                  \<and> n = word_of_int (bytes_written calls')
                  \<and> (bytes_written calls' < 2 ^ 63 \<longrightarrow> sint n = bytes_written calls')"
      by (auto simp: CopyBufferWithWriteTimeout_def)
  qed
  show ?thesis
    using 1 2 3 4 5 6 7 8 9 10 11 by (intro conjI)
qed

lemma example_run:
  "CopyBufferWithWriteTimeout (example_io 16) (make_bytes 4) 15
     [(3, None, [1, 2, 3]), (2, None, [4, 5])]
   = Some (Return (5, None), [])"
  by (simp add: CopyBufferWithWriteTimeout_def copy_loop.simps iteration_def write_chunk_def
      example_io_def make_bytes_def stored_def len_def reslice_def cap_def)

theorem CopyBufferWithWriteTimeout_follows_loop_witness:
  "Read (example_io 2) [(3, None, [1, 2, 3])] (make_bytes 4) = ((3, None, [1, 2, 3]), [])
   \<and> Now (example_io 2) [] = (1000, [])
   \<and> SetWriteDeadline (example_io 2) [] (1000 + 15) = (None, [])
   \<and> Write (example_io 2) [] [1, 2, 3] = ((2, None), [])
   \<and> snd (iteration (recording (example_io 2)) 15 (make_bytes 4) 0
             ([(3, None, [1, 2, 3])], []))
       = ([], [SetWriteDeadline_call 1015 None, Write_call [1, 2, 3] 2 None])
   \<and> copy_loop (example_io 2) 15 (make_bytes 4) 0 [(3, None, [1, 2, 3])]
       = Some (Return (2, Some ErrShortWrite), [])
   \<and> SetWriteDeadline (faulty_io (Some (errors_New ''i/o timeout'')) None) [] (1000 + 15)
       = (Some (errors_New ''i/o timeout''), [])
   \<and> snd (iteration (recording (faulty_io (Some (errors_New ''i/o timeout'')) None)) 15
             (make_bytes 4) 0 ([(3, None, [1, 2, 3])], []))
       = ([], [SetWriteDeadline_call 1015 (Some (errors_New ''i/o timeout''))])
   \<and> copy_loop (faulty_io (Some (errors_New ''i/o timeout'')) None) 15 (make_bytes 4) 0
         [(3, None, [1, 2, 3])]
       = Some (Return (0, Some (errors_New ''i/o timeout'')), [])
   \<and> Write (faulty_io None (Some (errors_New ''broken pipe''))) [] [1, 2, 3]
       = ((3, Some (errors_New ''broken pipe'')), [])
   \<and> copy_loop (faulty_io None (Some (errors_New ''broken pipe''))) 15 (make_bytes 4) 0
         [(3, None, [1, 2, 3])]
       = Some (Return (3, Some (errors_New ''broken pipe'')), [])
   \<and> Read (example_io 16) [(2, Some (errors_New ''connection reset''), [7, 8])] (make_bytes 4)
       = ((2, Some (errors_New ''connection reset''), [7, 8]), [])
   \<and> Write (example_io 16) [] [7, 8] = ((2, None), [])
   \<and> copy_loop (example_io 16) 15 (make_bytes 4) 0
         [(2, Some (errors_New ''connection reset''), [7, 8])]
       = Some (Return (2, Some (errors_New ''connection reset'')), [])
   \<and> Read (example_io 16) [] (make_bytes 4) = ((0, Some EOF, []), [])
   \<and> copy_loop (example_io 16) 15 (make_bytes 4) 5 [] = Some (Return (5, None), [])
   \<and> CopyBufferWithWriteTimeout (example_io 16) (make_bytes 4) 15
         [(3, None, [1, 2, 3]), (2, None, [4, 5])]
       = Some (Return (5, None), [])
   \<and> (\<exists>calls'. CopyBufferWithWriteTimeout (recording (example_io 16)) (make_bytes 4) 15
                   ([(3, None, [1, 2, 3]), (2, None, [4, 5])], [])
                 = Some (Return (5, None), ([], calls'))
               \<and> (5 :: 64 word) = word_of_int (bytes_written calls'))"
proof -
  let ?b = "make_bytes 4"
  let ?t = "errors_New ''i/o timeout''"
  let ?bp = "errors_New ''broken pipe''"
  have c: "cap ?b = 4" "len ?b = 4"
    by (simp_all add: cap_def len_def make_bytes_def)
  have k1: "take (nat 3) (elems (stored ?b [1, 2, 3]) @ spare ?b) = [1, 2, 3]"
    by (simp add: stored_def make_bytes_def len_def)
  text \<open>A short write.\<close>
  have r1: "Read (example_io 2) [(3, None, [1, 2, 3])] ?b = ((3, None, [1, 2, 3]), [])"
    by (simp add: example_io_def)
  have n1: "Now (example_io 2) [] = (1000, [])"
    by (simp add: example_io_def)
  have d1: "SetWriteDeadline (example_io 2) [] (1000 + 15) = (None, [])"
    by (simp add: example_io_def)
  have w1: "Write (example_io 2) [] [1, 2, 3] = ((2, None), [])"
    by (simp add: example_io_def)
  have w1': "Write (example_io 2) [] (take (nat 3) (elems (stored ?b [1, 2, 3]) @ spare ?b))
               = ((2, None), [])"
    unfolding k1 by (rule w1)
  note t1 = CopyBufferWithWriteTimeout_follows_loop [OF r1 n1 d1 w1', of 0 "[]"]
  from t1 [THEN conjunct2, THEN conjunct2, THEN conjunct2, THEN conjunct1] c
  have s1: "snd (iteration (recording (example_io 2)) 15 ?b 0
             ([(3, None, [1, 2, 3])], []))
       = ([], [SetWriteDeadline_call 1015 None, Write_call [1, 2, 3] 2 None])"
    unfolding k1 by simp
  from t1 [THEN conjunct2, THEN conjunct2, THEN conjunct2, THEN conjunct2, THEN conjunct2,
      THEN conjunct2, THEN conjunct2, THEN conjunct1] c
  have l1: "copy_loop (example_io 2) 15 ?b 0 [(3, None, [1, 2, 3])]
       = Some (Return (2, Some ErrShortWrite), [])"
    by simp
  text \<open>A deadline that is refused.\<close>
  have r5: "Read (faulty_io (Some ?t) None) [(3, None, [1, 2, 3])] ?b
              = ((3, None, [1, 2, 3]), [])"
    by (simp add: faulty_io_def)
  have n5: "Now (faulty_io (Some ?t) None) [] = (1000, [])"
    by (simp add: faulty_io_def)
  have d5: "SetWriteDeadline (faulty_io (Some ?t) None) [] (1000 + 15) = (Some ?t, [])"
    by (simp add: faulty_io_def)
  have w5: "Write (faulty_io (Some ?t) None) []
              (take (nat 3) (elems (stored ?b [1, 2, 3]) @ spare ?b)) = ((3, None), [])"
    unfolding k1 by (simp add: faulty_io_def)
  note t5 = CopyBufferWithWriteTimeout_follows_loop [OF r5 n5 d5 w5, of 0 "[]"]
  from t5 [THEN conjunct2, THEN conjunct1]
  have s5: "snd (iteration (recording (faulty_io (Some ?t) None)) 15 ?b 0
             ([(3, None, [1, 2, 3])], []))
       = ([], [SetWriteDeadline_call 1015 (Some ?t)])"
    and l5: "copy_loop (faulty_io (Some ?t) None) 15 ?b 0 [(3, None, [1, 2, 3])]
       = Some (Return (0, Some ?t), [])"
    by simp_all
  text \<open>A write that reports an error.\<close>
  have r6: "Read (faulty_io None (Some ?bp)) [(3, None, [1, 2, 3])] ?b
              = ((3, None, [1, 2, 3]), [])"
    by (simp add: faulty_io_def)
  have n6: "Now (faulty_io None (Some ?bp)) [] = (1000, [])"
    by (simp add: faulty_io_def)
  have d6: "SetWriteDeadline (faulty_io None (Some ?bp)) [] (1000 + 15) = (None, [])"
    by (simp add: faulty_io_def)
  have w6: "Write (faulty_io None (Some ?bp)) [] [1, 2, 3] = ((3, Some ?bp), [])"
    by (simp add: faulty_io_def)
  have w6': "Write (faulty_io None (Some ?bp)) []
              (take (nat 3) (elems (stored ?b [1, 2, 3]) @ spare ?b)) = ((3, Some ?bp), [])"
    unfolding k1 by (rule w6)
  note t6 = CopyBufferWithWriteTimeout_follows_loop [OF r6 n6 d6 w6', of 0 "[]"]
  from t6 [THEN conjunct2, THEN conjunct2, THEN conjunct2, THEN conjunct2, THEN conjunct2,
      THEN conjunct2, THEN conjunct1] c
  have l6: "copy_loop (faulty_io None (Some ?bp)) 15 ?b 0 [(3, None, [1, 2, 3])]
       = Some (Return (3, Some ?bp), [])"
    by simp
  text \<open>A read error after the bytes are written.\<close>
  have r2: "Read (example_io 16) [(2, Some (errors_New ''connection reset''), [7, 8])] ?b
       = ((2, Some (errors_New ''connection reset''), [7, 8]), [])"
    by (simp add: example_io_def)
  have n2: "Now (example_io 16) [] = (1000, [])"
    by (simp add: example_io_def)
  have d2: "SetWriteDeadline (example_io 16) [] (1000 + 15) = (None, [])"
    by (simp add: example_io_def)
  have k2: "take (nat 2) (elems (stored ?b [7, 8]) @ spare ?b) = [7, 8]"
    by (simp add: stored_def make_bytes_def len_def)
  have w2: "Write (example_io 16) [] [7, 8] = ((2, None), [])"
    by (simp add: example_io_def)
  have w2': "Write (example_io 16) [] (take (nat 2) (elems (stored ?b [7, 8]) @ spare ?b))
               = ((2, None), [])"
    unfolding k2 by (rule w2)
  note t2 = CopyBufferWithWriteTimeout_follows_loop [OF r2 n2 d2 w2', of 0 "[]"]
  from t2 [THEN conjunct2, THEN conjunct2, THEN conjunct2, THEN conjunct2, THEN conjunct2,
      THEN conjunct2, THEN conjunct2, THEN conjunct2, THEN conjunct1] c
  have l2: "copy_loop (example_io 16) 15 ?b 0
         [(2, Some (errors_New ''connection reset''), [7, 8])]
       = Some (Return (2, Some (errors_New ''connection reset'')), [])"
    by simp
  text \<open>The end of the source.\<close>
  have r3: "Read (example_io 16) [] ?b = ((0, Some EOF, []), [])"
    by (simp add: example_io_def)
  have w3: "Write (example_io 16) [] (take (nat 0) (elems (stored ?b []) @ spare ?b))
               = ((0, None), [])"
    by (simp add: example_io_def)
  note t3 = CopyBufferWithWriteTimeout_follows_loop [OF r3 n2 d2 w3, of 5 "[]"]
  from t3 [THEN conjunct2, THEN conjunct2, THEN conjunct2, THEN conjunct2, THEN conjunct2,
      THEN conjunct2, THEN conjunct2, THEN conjunct2, THEN conjunct2, THEN conjunct1]
  have l3: "copy_loop (example_io 16) 15 ?b 5 [] = Some (Return (5, None), [])"
    by simp
  text \<open>The count of a whole run.\<close>
  have r4: "Read (example_io 16) [(3, None, [1, 2, 3]), (2, None, [4, 5])] ?b
              = ((3, None, [1, 2, 3]), [(2, None, [4, 5])])"
    by (simp add: example_io_def)
  have n4: "Now (example_io 16) [(2, None, [4, 5])] = (1000, [(2, None, [4, 5])])"
    by (simp add: example_io_def)
  have d4: "SetWriteDeadline (example_io 16) [(2, None, [4, 5])] (1000 + 15)
              = (None, [(2, None, [4, 5])])"
    by (simp add: example_io_def)
  have w4: "Write (example_io 16) [(2, None, [4, 5])]
              (take (nat 3) (elems (stored ?b [1, 2, 3]) @ spare ?b))
              = ((3, None), [(2, None, [4, 5])])"
    unfolding k1 by (simp add: example_io_def)
  from CopyBufferWithWriteTimeout_follows_loop [OF r4 n4 d4 w4, of 0 "[]",
      THEN conjunct2, THEN conjunct2, THEN conjunct2, THEN conjunct2, THEN conjunct2,
      THEN conjunct2, THEN conjunct2, THEN conjunct2, THEN conjunct2, THEN conjunct2]
    example_run
  have l4: "\<exists>calls'. CopyBufferWithWriteTimeout (recording (example_io 16)) ?b 15
                   ([(3, None, [1, 2, 3]), (2, None, [4, 5])], [])
                 = Some (Return (5, None), ([], calls'))
               \<and> (5 :: 64 word) = word_of_int (bytes_written calls')"
    by blast
  show ?thesis
    using r1 n1 d1 w1 s1 l1 d5 s5 l5 w6 l6 r2 w2 l2 r3 l3 example_run l4 by (intro conjI)
qed

end
